theory Spec2Isabelle
  imports Main "HOL-Library.Word" "HOL-Library.Sublist"
begin

unbundle bit_operations_syntax

section \<open>Zone matching (dns/server.go, isDomainInZone)\<close>

text \<open>
  Go strings are byte sequences; they are modelled as \<open>string\<close> (a list of 8-bit
  characters). \<open>strings.HasSuffix\<close> and \<open>strings.Split\<close> are the two standard-library
  functions the matcher uses; the source only ever splits on the one-byte separator
  \<open>"."\<close>, so \<open>Split\<close> takes the separator as a character.
\<close>

definition HasSuffix :: "string \<Rightarrow> string \<Rightarrow> bool" where
  "HasSuffix s sfx =
     (length sfx \<le> length s \<and> drop (length s - length sfx) s = sfx)"

fun Split :: "string \<Rightarrow> char \<Rightarrow> string list" where
  "Split [] sep = [[]]"
| "Split (c # cs) sep =
     (if c = sep then [] # Split cs sep
      else (case Split cs sep of
              [] \<Rightarrow> [[c]]
            | p # ps \<Rightarrow> (c # p) # ps))"

text \<open>
  The comparison loop of \<open>isDomainInZone\<close>:
  \<^verbatim>\<open>for i, j := len(nameParts)-1, len(zoneParts)-1; i >= 0 && j >= 0; i, j = i-1, j-1\<close>.
  The indices are Go \<open>int\<close>s that reach \<open>-1\<close>, so they are integers here. They start
  at the last position of their slice and only decrease while non-negative, so every
  read is in range.
\<close>

function isDomainInZone_loop :: "string list \<Rightarrow> string list \<Rightarrow> int \<Rightarrow> int \<Rightarrow> bool" where
  "isDomainInZone_loop nameParts zoneParts i j =
     (if i \<ge> 0 \<and> j \<ge> 0 then
        (if nameParts ! nat i \<noteq> zoneParts ! nat j then False
         else isDomainInZone_loop nameParts zoneParts (i - 1) (j - 1))
      else True)"
  by pat_completeness auto
termination
  by (relation "measure (\<lambda>(nameParts, zoneParts, i, j). nat (i + 1))") auto

declare isDomainInZone_loop.simps [simp del]

definition isDomainInZone :: "string \<Rightarrow> string \<Rightarrow> bool" where
  "isDomainInZone name zone =
     (let name = (if \<not> HasSuffix name ''.'' then name @ ''.'' else name);
          nameParts = Split name (CHR ''.'');
          zoneParts = Split zone (CHR ''.'')
      in isDomainInZone_loop nameParts zoneParts
           (int (length nameParts) - 1) (int (length zoneParts) - 1))"

text \<open>The normalisation of the query name at the head of \<open>isDomainInZone\<close>, on its own.\<close>

definition fqdn :: "string \<Rightarrow> string" where
  "fqdn name = (if \<not> HasSuffix name ''.'' then name @ ''.'' else name)"

section \<open>DNS messages (package dnsmessage, as the server uses it)\<close>

text \<open>
  \<open>golang.org/x/net/dns/dnsmessage\<close> is a dependency of the server. Its types are
  modelled as the server sees them: \<open>Type\<close>, \<open>Class\<close>, \<open>RCode\<close> and \<open>OpCode\<close> are
  16-bit numbers, a \<open>Name\<close> is its byte string (\<open>q.Name.String()\<close>), and a message is
  its header, its questions and its answers.
\<close>

type_synonym byte = "8 word"
type_synonym uint16 = "16 word"
type_synonym uint32 = "32 word"

definition TypeA :: uint16 where "TypeA = 1"
definition TypeAAAA :: uint16 where "TypeAAAA = 28"
definition ClassINET :: uint16 where "ClassINET = 1"
definition ClassCHAOS :: uint16 where "ClassCHAOS = 3"
definition RCodeSuccess :: uint16 where "RCodeSuccess = 0"
definition RCodeNameError :: uint16 where "RCodeNameError = 3"
definition RCodeNotImplemented :: uint16 where "RCodeNotImplemented = 4"

record Header =
  ID :: uint16
  Response :: bool
  OpCode :: uint16
  Authoritative :: bool
  Truncated :: bool
  RecursionDesired :: bool
  RecursionAvailable :: bool
  RCode :: uint16

record Question =
  qName :: string
  qType :: uint16
  qClass :: uint16

record ResourceHeader =
  rhName :: string
  rhType :: uint16
  rhClass :: uint16
  rhTTL :: uint32
  rhLength :: uint16

datatype ResourceBody = AResource "byte list" | AAAAResource "byte list"

record Resource =
  rHeader :: ResourceHeader
  rBody :: ResourceBody

record Message =
  mHeader :: Header
  Questions :: "Question list"
  Answers :: "Resource list"

datatype error =
    ErrNotStarted | ErrSectionDone
  | errNameTooLong | errNonCanonicalName | errSegTooLong | errZeroSegLen
  | errResTooLong | errTooManyQuestions | errTooManyAnswers
  | errBaseLen | errCalcLen | errReserved | errTooManyPtr | errInvalidPtr | errInvalidName
  | ErrClosed
  | netError string
  | Errorf string error

subsection \<open>Packing a name\<close>

text \<open>
  \<open>Name.pack\<close> refuses a name that is longer than 255 bytes, that does not end with the
  root separator, or that has a label of 64 bytes or more or an empty label; the root
  name \<open>"."\<close> is accepted. \<open>None\<close> is Go's \<open>nil\<close> error.
\<close>

fun segments_err :: "string list \<Rightarrow> error option" where
  "segments_err [] = None"
| "segments_err (seg # segs) =
     (if length seg \<ge> 64 then Some errSegTooLong
      else if length seg = 0 then Some errZeroSegLen
      else segments_err segs)"

definition Name_pack :: "string \<Rightarrow> error option" where
  "Name_pack n =
     (if length n > 255 then Some errNameTooLong
      else if length n = 0 \<or> last n \<noteq> CHR ''.'' then Some errNonCanonicalName
      else if n = ''.'' then None
      else segments_err (butlast (Split n (CHR ''.''))))"

subsection \<open>The message builder\<close>

text \<open>
  A \<open>Builder\<close> appends to a byte buffer section by section. The model keeps what the
  buffer encodes (header, questions, answers) and the section the builder is in, and
  \<open>Finish\<close> returns the message that the bytes decode to.
\<close>

datatype msection =
    sectionNotStarted | sectionHeader | sectionQuestions | sectionAnswers
  | sectionAuthorities | sectionAdditionals | sectionDone

fun section_rank :: "msection \<Rightarrow> nat" where
  "section_rank sectionNotStarted = 0"
| "section_rank sectionHeader = 1"
| "section_rank sectionQuestions = 2"
| "section_rank sectionAnswers = 3"
| "section_rank sectionAuthorities = 4"
| "section_rank sectionAdditionals = 5"
| "section_rank sectionDone = 6"

record Builder =
  bHeader :: Header
  bSection :: msection
  bCompression :: bool
  bQuestions :: "Question list"
  bAnswers :: "Resource list"

definition NewBuilder :: "Header \<Rightarrow> Builder" where
  "NewBuilder h =
     \<lparr>bHeader = h, bSection = sectionHeader, bCompression = False,
      bQuestions = [], bAnswers = []\<rparr>"

definition EnableCompression :: "Builder \<Rightarrow> Builder" where
  "EnableCompression b = b\<lparr>bCompression := True\<rparr>"

definition startCheck :: "Builder \<Rightarrow> msection \<Rightarrow> error option" where
  "startCheck b sec =
     (if section_rank (bSection b) \<le> section_rank sectionNotStarted then Some ErrNotStarted
      else if section_rank (bSection b) > section_rank sec then Some ErrSectionDone
      else None)"

definition StartQuestions :: "Builder \<Rightarrow> error + Builder" where
  "StartQuestions b =
     (case startCheck b sectionQuestions of
        Some err \<Rightarrow> Inl err
      | None \<Rightarrow> Inr (b\<lparr>bSection := sectionQuestions\<rparr>))"

definition Builder_Question :: "Builder \<Rightarrow> Question \<Rightarrow> error + Builder" where
  "Builder_Question b q =
     (if section_rank (bSection b) < section_rank sectionQuestions then Inl ErrNotStarted
      else if section_rank (bSection b) > section_rank sectionQuestions then Inl ErrSectionDone
      else (case Name_pack (qName q) of
              Some err \<Rightarrow> Inl (Errorf ''Question'' err)
            | None \<Rightarrow>
                if length (bQuestions b) \<ge> 65535 then Inl errTooManyQuestions
                else Inr (b\<lparr>bQuestions := bQuestions b @ [q]\<rparr>)))"

definition StartAnswers :: "Builder \<Rightarrow> error + Builder" where
  "StartAnswers b =
     (case startCheck b sectionAnswers of
        Some err \<Rightarrow> Inl err
      | None \<Rightarrow> Inr (b\<lparr>bSection := sectionAnswers\<rparr>))"

definition checkResourceSection :: "Builder \<Rightarrow> error option" where
  "checkResourceSection b =
     (if section_rank (bSection b) < section_rank sectionAnswers then Some ErrNotStarted
      else if section_rank (bSection b) > section_rank sectionAdditionals then Some ErrSectionDone
      else None)"

text \<open>
  Adding a resource: the header's type is set from the body, the name is packed, the
  header's length is fixed to the length of the packed body, the section count is
  incremented. The server only adds resources in the answer section.
\<close>

definition addResource :: "Builder \<Rightarrow> ResourceHeader \<Rightarrow> uint16 \<Rightarrow> byte list \<Rightarrow> ResourceBody
    \<Rightarrow> error + Builder" where
  "addResource b h realType packed body =
     (case checkResourceSection b of
        Some err \<Rightarrow> Inl err
      | None \<Rightarrow>
         (case Name_pack (rhName h) of
            Some err \<Rightarrow> Inl (Errorf ''ResourceHeader'' err)
          | None \<Rightarrow>
              if length packed > 65535 then Inl errResTooLong
              else if length (bAnswers b) \<ge> 65535 then Inl errTooManyAnswers
              else Inr (b\<lparr>bAnswers := bAnswers b @
                     [\<lparr>rHeader = h\<lparr>rhType := realType, rhLength := of_nat (length packed)\<rparr>,
                       rBody = body\<rparr>]\<rparr>)))"

definition Builder_AResource :: "Builder \<Rightarrow> ResourceHeader \<Rightarrow> byte list \<Rightarrow> error + Builder" where
  "Builder_AResource b h a = addResource b h TypeA a (AResource a)"

definition Builder_AAAAResource :: "Builder \<Rightarrow> ResourceHeader \<Rightarrow> byte list \<Rightarrow> error + Builder" where
  "Builder_AAAAResource b h aaaa = addResource b h TypeAAAA aaaa (AAAAResource aaaa)"

definition Finish :: "Builder \<Rightarrow> error + Message" where
  "Finish b =
     (if section_rank (bSection b) < section_rank sectionHeader then Inl ErrNotStarted
      else Inr \<lparr>mHeader = bHeader b, Questions = bQuestions b, Answers = bAnswers b\<rparr>)"

section \<open>Addresses (package net, as the server uses it)\<close>

definition v4InV6Prefix :: "byte list" where
  "v4InV6Prefix = [0, 0, 0, 0, 0, 0, 0, 0, 0, 0, 0xff, 0xff]"

definition IPv4 :: "byte \<Rightarrow> byte \<Rightarrow> byte \<Rightarrow> byte \<Rightarrow> byte list" where
  "IPv4 a b c d = v4InV6Prefix @ [a, b, c, d]"

text \<open>\<open>ip.To4()\<close>: the 4-byte form of an IPv4 address, and \<open>nil\<close> (the empty slice) otherwise.\<close>

definition To4 :: "byte list \<Rightarrow> byte list" where
  "To4 ip =
     (if length ip = 4 then ip
      else if length ip = 16 \<and> list_all (\<lambda>x. x = 0) (take 10 ip)
              \<and> ip ! 10 = 0xff \<and> ip ! 11 = 0xff
        then take 4 (drop 12 ip)
      else [])"

text \<open>The value of \<open>net.ParseIP("::1")\<close>: the 16 bytes of the IPv6 loopback address.\<close>

definition ParseIP_loopback :: "byte list" where
  "ParseIP_loopback = [0, 0, 0, 0, 0, 0, 0, 0, 0, 0, 0, 0, 0, 0, 0, 1]"

text \<open>Go's builtin \<open>copy(dst, src)\<close>, returning the destination after the copy.\<close>

definition copy :: "'a list \<Rightarrow> 'a list \<Rightarrow> 'a list" where
  "copy dst src = take (length dst) src @ drop (length src) dst"

section \<open>The resolver (dns/server.go)\<close>

text \<open>
  The server holds its logger and its zone. The informational log lines of
  \<open>answerQuestion\<close> have no effect on its results and are left out; the error log of
  the receive loop is modelled with the loop.
\<close>

record Server =
  zone :: string

definition NewServer :: "string \<Rightarrow> Server" where
  "NewServer z = \<lparr>zone = z\<rparr>"

definition ipV4ToAResource :: "byte list \<Rightarrow> byte list" where
  "ipV4ToAResource ip = copy [0, 0, 0, 0] (To4 ip)"

definition ipV6ToAAAAResource :: "byte list \<Rightarrow> byte list" where
  "ipV6ToAAAAResource ip = copy (replicate 16 0) ip"

text \<open>
  \<open>answerQuestion\<close> writes the response code through its header pointer and returns a
  closure that adds the answer to a builder, with an error that is always \<open>nil\<close>. The
  model returns the header after the call together with the closure.
\<close>

definition answerQuestion ::
    "Server \<Rightarrow> Header \<Rightarrow> Question \<Rightarrow> error + (Header \<times> (Builder \<Rightarrow> error + Builder))" where
  "answerQuestion s responseHeader q =
     (let noResponse = (\<lambda>b. Inr b) in
      if zone s \<noteq> [] \<and> \<not> isDomainInZone (qName q) (zone s) then
        Inr (responseHeader\<lparr>RCode := RCodeNameError\<rparr>, noResponse)
      else if qType q = TypeA then
        Inr (responseHeader,
             \<lambda>b. let localIP = IPv4 127 0 0 1 in
                  Builder_AResource b
                    \<lparr>rhName = qName q, rhType = TypeA, rhClass = ClassINET,
                     rhTTL = 300, rhLength = 0\<rparr>
                    (ipV4ToAResource localIP))
      else if qType q = TypeAAAA then
        (let localIP = ParseIP_loopback in
         Inr (responseHeader,
              \<lambda>b. Builder_AAAAResource b
                     \<lparr>rhName = qName q, rhType = TypeAAAA, rhClass = ClassINET,
                      rhTTL = 300, rhLength = 0\<rparr>
                     (ipV6ToAAAAResource localIP)))
      else
        Inr (responseHeader\<lparr>RCode := RCodeNotImplemented\<rparr>, noResponse))"

text \<open>The header literal at the head of \<open>buildResponse\<close>.\<close>

definition responseHeader_init :: "Header \<Rightarrow> Header" where
  "responseHeader_init queryHeader =
     \<lparr>ID = ID queryHeader, Response = True, OpCode = 0, Authoritative = True,
      Truncated = False, RecursionDesired = RecursionDesired queryHeader,
      RecursionAvailable = False, RCode = RCodeSuccess\<rparr>"

definition buildResponse :: "Server \<Rightarrow> Header \<Rightarrow> Question \<Rightarrow> error + Message" where
  "buildResponse s queryHeader q =
     (let responseHeader = responseHeader_init queryHeader in
      case answerQuestion s responseHeader q of
        Inl err \<Rightarrow> Inl (Errorf ''failed to construct answer builder'' err)
      | Inr (responseHeader, answerBuilder) \<Rightarrow>
          (let b = EnableCompression (NewBuilder responseHeader) in
           case StartQuestions b of
             Inl err \<Rightarrow> Inl err
           | Inr b \<Rightarrow>
          (case Builder_Question b q of
             Inl err \<Rightarrow> Inl err
           | Inr b \<Rightarrow>
          (case StartAnswers b of
             Inl err \<Rightarrow> Inl err
           | Inr b \<Rightarrow>
          (case answerBuilder b of
             Inl err \<Rightarrow> Inl (Errorf ''failed to build answer'' err)
           | Inr b \<Rightarrow> Finish b)))))"

text \<open>
  The zone filter at the head of \<open>answerQuestion\<close> lets a question through when no
  zone is configured or \<open>isDomainInZone\<close> accepts its name.
\<close>

definition in_zone :: "Server \<Rightarrow> Question \<Rightarrow> bool" where
  "in_zone s q = (zone s = [] \<or> isDomainInZone (qName q) (zone s))"

section \<open>The message parser (package dnsmessage, as the server uses it)\<close>

text \<open>
  The server parses a datagram with \<open>Parser.Start\<close> (the 12-byte header) and one call of
  \<open>Parser.Question\<close> (the first question: a name, a type and a class). Both read the
  bytes of the datagram, big-endian.
\<close>

record wire_header =
  h_id :: uint16
  h_bits :: uint16
  h_questions :: uint16
  h_answers :: uint16
  h_authorities :: uint16
  h_additionals :: uint16

definition unpackUint16 :: "byte list \<Rightarrow> nat \<Rightarrow> error + (uint16 \<times> nat)" where
  "unpackUint16 msg off =
     (if off + 2 > length msg then Inl errBaseLen
      else Inr (push_bit 8 (ucast (msg ! off)) OR ucast (msg ! (off + 1)), off + 2))"

definition header_unpack :: "byte list \<Rightarrow> nat \<Rightarrow> error + (wire_header \<times> nat)" where
  "header_unpack msg off =
     (case unpackUint16 msg off of Inl err \<Rightarrow> Inl (Errorf ''id'' err) | Inr (id', off) \<Rightarrow>
      case unpackUint16 msg off of Inl err \<Rightarrow> Inl (Errorf ''bits'' err) | Inr (bits, off) \<Rightarrow>
      case unpackUint16 msg off of Inl err \<Rightarrow> Inl (Errorf ''questions'' err) | Inr (qd, off) \<Rightarrow>
      case unpackUint16 msg off of Inl err \<Rightarrow> Inl (Errorf ''answers'' err) | Inr (an, off) \<Rightarrow>
      case unpackUint16 msg off of Inl err \<Rightarrow> Inl (Errorf ''authorities'' err) | Inr (ns, off) \<Rightarrow>
      case unpackUint16 msg off of Inl err \<Rightarrow> Inl (Errorf ''additionals'' err) | Inr (ar, off) \<Rightarrow>
      Inr (\<lparr>h_id = id', h_bits = bits, h_questions = qd, h_answers = an,
            h_authorities = ns, h_additionals = ar\<rparr>, off))"

definition headerBitQR :: uint16 where "headerBitQR = push_bit 15 1"
definition headerBitAA :: uint16 where "headerBitAA = push_bit 10 1"
definition headerBitTC :: uint16 where "headerBitTC = push_bit 9 1"
definition headerBitRD :: uint16 where "headerBitRD = push_bit 8 1"
definition headerBitRA :: uint16 where "headerBitRA = push_bit 7 1"

definition header_of :: "wire_header \<Rightarrow> Header" where
  "header_of h =
     \<lparr>ID = h_id h,
      Response = (h_bits h AND headerBitQR \<noteq> 0),
      OpCode = drop_bit 11 (h_bits h) AND 0xF,
      Authoritative = (h_bits h AND headerBitAA \<noteq> 0),
      Truncated = (h_bits h AND headerBitTC \<noteq> 0),
      RecursionDesired = (h_bits h AND headerBitRD \<noteq> 0),
      RecursionAvailable = (h_bits h AND headerBitRA \<noteq> 0),
      RCode = h_bits h AND 0xF\<rparr>"

record Parser =
  pMsg :: "byte list"
  pHeader :: wire_header
  pSection :: msection
  pOff :: nat
  pIndex :: nat

definition Parser_Start :: "byte list \<Rightarrow> error + (Header \<times> Parser)" where
  "Parser_Start msg =
     (case header_unpack msg 0 of
        Inl err \<Rightarrow> Inl (Errorf ''unpacking header'' err)
      | Inr (h, off) \<Rightarrow>
          Inr (header_of h,
               \<lparr>pMsg = msg, pHeader = h, pSection = sectionQuestions, pOff = off, pIndex = 0\<rparr>))"

definition bytes_string :: "byte list \<Rightarrow> string" where
  "bytes_string bs = map (\<lambda>b. char_of (unat b)) bs"

text \<open>
  The loop of \<open>Name.unpack\<close>: a label is a length byte below 64 and that many bytes, a
  zero length ends the name, a length byte with its two top bits set starts a
  compression pointer (at most 10 are followed), and the two other prefixes are
  reserved. It returns the name, the working offset, the offset after the first
  pointer and the number of pointers followed.
\<close>

function Name_unpack_loop ::
    "byte list \<Rightarrow> nat \<Rightarrow> nat \<Rightarrow> nat \<Rightarrow> string \<Rightarrow> error + (string \<times> nat \<times> nat \<times> nat)" where
  "Name_unpack_loop msg currOff newOff ptr name =
     (if currOff \<ge> length msg then Inl errBaseLen
      else if (msg ! currOff) AND 0xC0 = 0x00 then
        (if msg ! currOff = 0x00 then Inr (name, currOff + 1, newOff, ptr)
         else if currOff + 1 + unat (msg ! currOff) > length msg then Inl errCalcLen
         else if list_ex (\<lambda>v. v = 0x2E) (take (unat (msg ! currOff)) (drop (currOff + 1) msg))
           then Inl errInvalidName
         else Name_unpack_loop msg (currOff + 1 + unat (msg ! currOff)) newOff ptr
                (name @ bytes_string (take (unat (msg ! currOff)) (drop (currOff + 1) msg)) @ ''.''))
      else if (msg ! currOff) AND 0xC0 = 0xC0 then
        (if currOff + 1 \<ge> length msg then Inl errInvalidPtr
         else if ptr + 1 > 10 then Inl errTooManyPtr
         else Name_unpack_loop msg
                (push_bit 8 (unat ((msg ! currOff) XOR 0xC0)) OR unat (msg ! (currOff + 1)))
                (if ptr = 0 then currOff + 2 else newOff) (ptr + 1) name)
      else Inl errReserved)"
  by pat_completeness auto
termination
  by (relation "measures [\<lambda>(msg, currOff, newOff, ptr, name). 11 - ptr,
                          \<lambda>(msg, currOff, newOff, ptr, name). length msg - currOff]") auto

declare Name_unpack_loop.simps [simp del]

definition Name_unpack :: "byte list \<Rightarrow> nat \<Rightarrow> error + (string \<times> nat)" where
  "Name_unpack msg off =
     (case Name_unpack_loop msg off off 0 [] of
        Inl err \<Rightarrow> Inl err
      | Inr (name, currOff, newOff, ptr) \<Rightarrow>
          (let name = (if length name = 0 then ''.'' else name) in
           if length name > 255 then Inl errCalcLen
           else Inr (name, if ptr = 0 then currOff else newOff)))"

definition checkAdvance :: "Parser \<Rightarrow> msection \<Rightarrow> error + Parser" where
  "checkAdvance p sec =
     (if section_rank (pSection p) < section_rank sec then Inl ErrNotStarted
      else if section_rank (pSection p) > section_rank sec then Inl ErrSectionDone
      else if sec = sectionQuestions \<and> pIndex p = unat (h_questions (pHeader p))
        then Inl ErrSectionDone
      else Inr p)"

definition Parser_Question :: "Parser \<Rightarrow> error + (Question \<times> Parser)" where
  "Parser_Question p =
     (case checkAdvance p sectionQuestions of Inl err \<Rightarrow> Inl err | Inr p \<Rightarrow>
      case Name_unpack (pMsg p) (pOff p) of
        Inl err \<Rightarrow> Inl (Errorf ''unpacking Question.Name'' err)
      | Inr (name, off) \<Rightarrow>
      case unpackUint16 (pMsg p) off of
        Inl err \<Rightarrow> Inl (Errorf ''unpacking Question.Type'' err)
      | Inr (typ, off) \<Rightarrow>
      case unpackUint16 (pMsg p) off of
        Inl err \<Rightarrow> Inl (Errorf ''unpacking Question.Class'' err)
      | Inr (class, off) \<Rightarrow>
          Inr (\<lparr>qName = name, qType = typ, qClass = class\<rparr>,
               p\<lparr>pOff := off, pIndex := pIndex p + 1\<rparr>))"

section \<open>The transport listener (dns/server.go)\<close>

text \<open>
  The socket is modelled by what the server does to it: the datagrams written so far,
  each with its destination, and whether it has been closed. A response is kept as the
  message its bytes encode. A write on a closed socket fails; a write on an open socket
  succeeds.
\<close>

type_synonym UDPAddr = string

record UDPConn =
  closed :: bool
  sent :: "(Message \<times> UDPAddr) list"

definition WriteToUDP :: "UDPConn \<Rightarrow> Message \<Rightarrow> UDPAddr \<Rightarrow> error + UDPConn" where
  "WriteToUDP conn b addr =
     (if closed conn then Inl (Errorf ''write udp'' ErrClosed)
      else Inr (conn\<lparr>sent := sent conn @ [(b, addr)]\<rparr>))"

text \<open>\<open>handleQuery\<close> returns Go's error (\<open>None\<close> is \<open>nil\<close>) and the socket after the call.\<close>

definition handleQuery ::
    "Server \<Rightarrow> UDPConn \<Rightarrow> UDPAddr \<Rightarrow> byte list \<Rightarrow> error option \<times> UDPConn" where
  "handleQuery s conn srcAddr query =
     (case Parser_Start query of
        Inl err \<Rightarrow> (Some (Errorf ''failed to parse DNS query header'' err), conn)
      | Inr (queryHeader, p) \<Rightarrow>
     (case Parser_Question p of
        Inl err \<Rightarrow> (Some (Errorf ''failed to parse DNS question'' err), conn)
      | Inr (q, p) \<Rightarrow>
     (case buildResponse s queryHeader q of
        Inl err \<Rightarrow> (Some (Errorf ''failed to build DNS response'' err), conn)
      | Inr response \<Rightarrow>
     (case WriteToUDP conn response srcAddr of
        Inl err \<Rightarrow> (Some (Errorf ''failed to write DNS response'' err), conn)
      | Inr conn \<Rightarrow> (None, conn)))))"

text \<open>
  \<open>errors.Is(err, net.ErrClosed)\<close>: the error is \<open>net.ErrClosed\<close> or wraps it.
\<close>

fun errors_Is_ErrClosed :: "error \<Rightarrow> bool" where
  "errors_Is_ErrClosed ErrClosed = True"
| "errors_Is_ErrClosed (Errorf m err) = errors_Is_ErrClosed err"
| "errors_Is_ErrClosed _ = False"

text \<open>
  The receive loop. What \<open>conn.ReadFromUDP\<close> returns is the environment's choice, so the
  loop runs over the list of the results of its successive reads: a datagram with its
  source address, or an error. The loop itself has no exit but the return on a closed
  socket; when the list is used up without one, the loop is still blocked in its read and
  the result is \<open>None\<close>. \<open>Some None\<close> is the return of \<open>nil\<close>. Each datagram is cut to
  the 512 bytes of the read buffer. The handler of a datagram is a goroutine; the model
  runs it to its end before the next read, which is one of the schedules of the program.
  The state is the socket and the error-level log.
\<close>

datatype read_result = Datagram "byte list" UDPAddr | ReadError error

record listener_state =
  conn :: UDPConn
  errlog :: "(string \<times> error) list"

fun handleRequests ::
    "Server \<Rightarrow> listener_state \<Rightarrow> read_result list \<Rightarrow> error option option \<times> listener_state" where
  "handleRequests s st [] = (None, st)"
| "handleRequests s st (ReadError err # reads) =
     (if errors_Is_ErrClosed err then (Some None, st)
      else handleRequests s
             (st\<lparr>errlog := errlog st @ [(''Failed to read from UDP connection'', err)]\<rparr>)
             reads)"
| "handleRequests s st (Datagram query srcAddr # reads) =
     (case handleQuery s (conn st) srcAddr (take 512 query) of
        (Some err, c) \<Rightarrow>
          handleRequests s
            (st\<lparr>conn := c, errlog := errlog st @ [(''Failed to handle DNS query'', err)]\<rparr>)
            reads
      | (None, c) \<Rightarrow> handleRequests s (st\<lparr>conn := c\<rparr>) reads)"

section \<open>Notions used in the properties\<close>

text \<open>
  A label as \<open>Name.unpack\<close> reads one: not empty, shorter than 64 bytes, without the
  separator. A name is its labels, each followed by the separator.
\<close>

definition good_label :: "string \<Rightarrow> bool" where
  "good_label l = (l \<noteq> [] \<and> length l < 64 \<and> CHR ''.'' \<notin> set l)"

definition join_labels :: "string list \<Rightarrow> string" where
  "join_labels ls = concat (map (\<lambda>l. l @ ''.'') ls)"

text \<open>The number of questions that the header of a datagram announces.\<close>

definition question_count :: "byte list \<Rightarrow> nat option" where
  "question_count query =
     (case Parser_Start query of
        Inl err \<Rightarrow> None
      | Inr (h, p) \<Rightarrow> Some (unat (h_questions (pHeader p))))"

text \<open>A read of the socket that fails with the closed condition.\<close>

definition is_closed_read :: "read_result \<Rightarrow> bool" where
  "is_closed_read r =
     (case r of Datagram query srcAddr \<Rightarrow> False | ReadError err \<Rightarrow> errors_Is_ErrClosed err)"

text \<open>
  Two datagrams, both with ID 1 and the recursion-desired bit. The first announces two
  questions: \<open>test.zone.\<close> A IN, and the same name (as a compression pointer) AAAA IN.
  The second is a header alone and announces no question.
\<close>

definition two_questions :: "byte list" where
  "two_questions =
     [0, 1,  1, 0,  0, 2,  0, 0,  0, 0,  0, 0,
      4, 0x74, 0x65, 0x73, 0x74,  4, 0x7a, 0x6f, 0x6e, 0x65,  0,  0, 1,  0, 1,
      0xC0, 12,  0, 28,  0, 1]"

definition no_questions :: "byte list" where
  "no_questions = [0, 1,  1, 0,  0, 0,  0, 0,  0, 0,  0, 0]"

text \<open>
  A datagram that announces one question and ends inside the first label of its name
  (a length byte of 4 and one byte).
\<close>

definition truncated_question :: "byte list" where
  "truncated_question = [0, 1,  1, 0,  0, 1,  0, 0,  0, 0,  0, 0,  4, 0x74]"


text \<open>
  The labels that the loop of \<open>isDomainInZone\<close> compares: of the labels of the
  normalised name and of the zone, the rightmost \<open>k\<close> of each, where \<open>k\<close> is the smaller
  of the two label counts.
\<close>

definition compared_labels :: "string \<Rightarrow> string \<Rightarrow> string list \<times> string list" where
  "compared_labels name z =
     (let nameParts = Split (fqdn name) (CHR ''.'');
          zoneParts = Split z (CHR ''.'');
          k = min (length nameParts) (length zoneParts)
      in (drop (length nameParts - k) nameParts, drop (length zoneParts - k) zoneParts))"

text \<open>ASCII lower-casing, the letter case that DNS names conventionally ignore.\<close>

definition toLower :: "char \<Rightarrow> char" where
  "toLower ch =
     (if 65 \<le> (of_char ch :: nat) \<and> (of_char ch :: nat) \<le> 90
      then char_of ((of_char ch :: nat) + 32) else ch)"

section \<open>Properties of zone matching\<close>

text \<open>
  The loop compares the two label lists position by position from the right, for as
  many positions as the shorter list has; so it accepts exactly when one label list is
  a suffix of the other.
\<close>

lemma isDomainInZone_loop_all:
  "i < int (length np) \<Longrightarrow> j < int (length zp) \<Longrightarrow> - 1 \<le> i \<Longrightarrow> - 1 \<le> j \<Longrightarrow>
   isDomainInZone_loop np zp i j =
     (\<forall>d < nat (min i j + 1). np ! (nat i - d) = zp ! (nat j - d))"
proof (induction np zp i j rule: isDomainInZone_loop.induct)
  case (1 np zp i j)
  show ?case
  proof (cases "i \<ge> 0 \<and> j \<ge> 0")
    case False
    then have "nat (min i j + 1) = 0" using 1(4,5) by auto
    moreover have "isDomainInZone_loop np zp i j"
      using False by (subst isDomainInZone_loop.simps) auto
    ultimately show ?thesis by simp
  next
    case True
    show ?thesis
    proof (cases "np ! nat i = zp ! nat j")
      case False
      with True have "\<not> isDomainInZone_loop np zp i j"
        by (simp add: isDomainInZone_loop.simps [of np zp i j])
      moreover have "\<not> (\<forall>d < nat (min i j + 1). np ! (nat i - d) = zp ! (nat j - d))"
      proof
        assume a: "\<forall>d < nat (min i j + 1). np ! (nat i - d) = zp ! (nat j - d)"
        have "0 < nat (min i j + 1)" using True by auto
        with a have "np ! (nat i - 0) = zp ! (nat j - 0)" by blast
        with False show False by simp
      qed
      ultimately show ?thesis by blast
    next
      case eq: True
      have ih: "isDomainInZone_loop np zp (i - 1) (j - 1) =
        (\<forall>d < nat (min (i - 1) (j - 1) + 1). np ! (nat (i - 1) - d) = zp ! (nat (j - 1) - d))"
        using 1(1)[OF True] eq 1(2,3) True by simp
      have step: "isDomainInZone_loop np zp i j = isDomainInZone_loop np zp (i - 1) (j - 1)"
        using True eq by (simp add: isDomainInZone_loop.simps [of np zp i j])
      have "(\<forall>d < nat (min i j + 1). np ! (nat i - d) = zp ! (nat j - d)) =
            (\<forall>d < nat (min (i - 1) (j - 1) + 1). np ! (nat (i - 1) - d) = zp ! (nat (j - 1) - d))"
        (is "?L = ?R")
      proof
        assume L: ?L
        show ?R
        proof (intro allI impI)
          fix d assume d: "d < nat (min (i - 1) (j - 1) + 1)"
          then have "Suc d < nat (min i j + 1)" using True by auto
          with L have "np ! (nat i - Suc d) = zp ! (nat j - Suc d)" by blast
          moreover have "nat i - Suc d = nat (i - 1) - d" "nat j - Suc d = nat (j - 1) - d"
            using True by auto
          ultimately show "np ! (nat (i - 1) - d) = zp ! (nat (j - 1) - d)" by simp
        qed
      next
        assume R: ?R
        show ?L
        proof (intro allI impI)
          fix d assume d: "d < nat (min i j + 1)"
          show "np ! (nat i - d) = zp ! (nat j - d)"
          proof (cases d)
            case 0
            with eq show ?thesis by simp
          next
            case (Suc d')
            with d have "d' < nat (min (i - 1) (j - 1) + 1)" using True by auto
            with R have "np ! (nat (i - 1) - d') = zp ! (nat (j - 1) - d')" by blast
            moreover have "nat i - Suc d' = nat (i - 1) - d'" "nat j - Suc d' = nat (j - 1) - d'"
              using True by auto
            ultimately show ?thesis using Suc by simp
          qed
        qed
      qed
      with step ih show ?thesis by simp
    qed
  qed
qed

lemma isDomainInZone_loop_rev:
  "isDomainInZone_loop np zp (int (length np) - 1) (int (length zp) - 1) =
     (take (min (length np) (length zp)) (rev np) = take (min (length np) (length zp)) (rev zp))"
proof -
  let ?k = "min (length np) (length zp)"
  have k: "nat (min (int (length np) - 1) (int (length zp) - 1) + 1) = ?k" by auto
  have "isDomainInZone_loop np zp (int (length np) - 1) (int (length zp) - 1) =
     (\<forall>d < ?k. np ! (nat (int (length np) - 1) - d) = zp ! (nat (int (length zp) - 1) - d))"
    using isDomainInZone_loop_all[of "int (length np) - 1" np "int (length zp) - 1" zp] k by simp
  also have "\<dots> = (\<forall>d < ?k. rev np ! d = rev zp ! d)"
  proof -
    have "\<And>d. d < ?k \<Longrightarrow> np ! (nat (int (length np) - 1) - d) = rev np ! d"
      by (simp add: rev_nth nat_diff_distrib') 
    moreover have "\<And>d. d < ?k \<Longrightarrow> zp ! (nat (int (length zp) - 1) - d) = rev zp ! d"
      by (simp add: rev_nth nat_diff_distrib')
    ultimately show ?thesis by auto
  qed
  also have "\<dots> = (take ?k (rev np) = take ?k (rev zp))"
    by (auto simp: list_eq_iff_nth_eq)
  finally show ?thesis .
qed

lemma isDomainInZone_loop_suffix:
  "isDomainInZone_loop np zp (int (length np) - 1) (int (length zp) - 1) =
     (suffix zp np \<or> suffix np zp)"
proof -
  have tk: "\<And>(xs::string list) ys. length ys \<le> length xs \<Longrightarrow>
      (take (length ys) (rev xs) = rev ys) = suffix ys xs"
  proof -
    fix xs ys :: "string list" assume "length ys \<le> length xs"
    have "(take (length ys) (rev xs) = rev ys) = prefix (rev ys) (rev xs)"
    proof
      assume a: "take (length ys) (rev xs) = rev ys"
      have "rev xs = take (length ys) (rev xs) @ drop (length ys) (rev xs)" by simp
      with a have "rev xs = rev ys @ drop (length ys) (rev xs)" by simp
      then show "prefix (rev ys) (rev xs)" unfolding prefix_def by blast
    next
      assume "prefix (rev ys) (rev xs)"
      then obtain zs where "rev xs = rev ys @ zs" unfolding prefix_def by blast
      then show "take (length ys) (rev xs) = rev ys" by simp
    qed
    then show "(take (length ys) (rev xs) = rev ys) = suffix ys xs"
      by (simp add: suffix_to_prefix)
  qed
  show ?thesis
  proof (cases "length zp \<le> length np")
    case True
    then have "min (length np) (length zp) = length zp" by simp
    then have "isDomainInZone_loop np zp (int (length np) - 1) (int (length zp) - 1) =
        suffix zp np" using tk[OF True] by (simp add: isDomainInZone_loop_rev)
    moreover have "suffix np zp \<Longrightarrow> suffix zp np"
    proof -
      assume "suffix np zp"
      then obtain ws where ws: "zp = ws @ np" unfolding suffix_def by blast
      with True have "ws = []" by simp
      with ws show "suffix zp np" by simp
    qed
    ultimately show ?thesis by blast
  next
    case False
    then have le: "length np \<le> length zp" by simp
    then have "min (length np) (length zp) = length np" by simp
    then have "isDomainInZone_loop np zp (int (length np) - 1) (int (length zp) - 1) =
        suffix np zp" using tk[OF le] by (auto simp add: isDomainInZone_loop_rev)
    moreover have "suffix zp np \<Longrightarrow> suffix np zp"
    proof -
      assume "suffix zp np"
      then obtain ws where ws: "np = ws @ zp" unfolding suffix_def by blast
      with le have "ws = []" by simp
      with ws show "suffix np zp" by simp
    qed
    ultimately show ?thesis by blast
  qed
qed


lemma Split_not_Nil: "Split s sep \<noteq> []"
  by (induction s) (auto split: list.splits)

lemma Split_append_sep: "Split (a @ sep # b) sep = Split a sep @ Split b sep"
  by (induction a) (auto split: list.splits simp: Split_not_Nil)

lemma HasSuffix_dot: "HasSuffix s ''.'' = (s \<noteq> [] \<and> last s = CHR ''.'')"
proof (cases s rule: rev_cases)
  case Nil
  then show ?thesis by (simp add: HasSuffix_def)
next
  case (snoc ys y)
  then show ?thesis by (auto simp add: HasSuffix_def)
qed

lemma fqdn_idem: "HasSuffix name ''.'' \<Longrightarrow> fqdn name = name"
  by (simp add: fqdn_def)

lemma isDomainInZone_fqdn: "isDomainInZone name z = isDomainInZone (fqdn name) z"
  by (simp add: isDomainInZone_def fqdn_def HasSuffix_dot)

lemma isDomainInZone_suffix:
  "isDomainInZone name z =
     (suffix (Split z (CHR ''.'')) (Split (fqdn name) (CHR ''.'')) \<or>
      suffix (Split (fqdn name) (CHR ''.'')) (Split z (CHR ''.'')))"
  unfolding isDomainInZone_def fqdn_def Let_def by (rule isDomainInZone_loop_suffix)

lemma isDomainInZone_refl: "HasSuffix z ''.'' \<Longrightarrow> isDomainInZone z z"
  by (simp add: isDomainInZone_suffix fqdn_idem)

lemma isDomainInZone_subdomain:
  assumes "HasSuffix z ''.''"
  shows "isDomainInZone (sub @ ''.'' @ z) z"
proof -
  have "HasSuffix (sub @ ''.'' @ z) ''.''"
    using assms by (auto simp: HasSuffix_dot)
  then have "fqdn (sub @ ''.'' @ z) = sub @ CHR ''.'' # z"
    by (simp add: fqdn_idem)
  then show ?thesis
    by (simp add: isDomainInZone_suffix Split_append_sep suffix_def)
qed

lemma isDomainInZone_reject:
  assumes "length (Split z (CHR ''.'')) \<le> length (Split (fqdn name) (CHR ''.''))"
    and "\<not> suffix (Split z (CHR ''.'')) (Split (fqdn name) (CHR ''.''))"
  shows "\<not> isDomainInZone name z"
proof
  assume "isDomainInZone name z"
  with assms(2) have sf: "suffix (Split (fqdn name) (CHR ''.'')) (Split z (CHR ''.''))"
    by (simp add: isDomainInZone_suffix)
  then obtain ws where ws: "Split z (CHR ''.'') = ws @ Split (fqdn name) (CHR ''.'')"
    unfolding suffix_def by blast
  with assms(1) have "ws = []"
    by (metis add_le_same_cancel2 le_zero_eq length_0_conv length_append)
  with ws assms(2) show False by simp
qed

text \<open>
  C3: for every configured zone and every query name that has fewer labels than the
  zone, zone matching rejects the name (with zone \<open>test.zone.\<close>, the name \<open>zone.\<close> is
  not in zone). The code does otherwise: the loop stops when the labels of the name are
  used up, and nothing checks that the labels of the zone are used up too. The name
  \<open>zone.\<close> has two labels (\<open>zone\<close> and the empty root label), the zone \<open>test.zone.\<close>
  has three, and \<open>isDomainInZone\<close> returns \<open>true\<close>.
\<close>

theorem C3_shorter_name_accepted:
  "length (Split (fqdn ''zone.'') (CHR ''.'')) < length (Split ''test.zone.'' (CHR ''.''))
   \<and> isDomainInZone ''zone.'' ''test.zone.''"
  by code_simp

text \<open>
  C5: zone matching is reflexive, accepts every proper subdomain of the zone and
  rejects every name whose labels are not a right-aligned match of the labels of the
  zone. The first two hold (\<open>isDomainInZone_refl\<close>, \<open>isDomainInZone_subdomain\<close>), and
  the third holds for names with at least as many labels as the zone
  (\<open>isDomainInZone_reject\<close>). For a shorter name the code departs from the claim, by the
  defect of C3: the labels of the zone \<open>test.zone.\<close> are not a suffix of the labels of
  \<open>zone.\<close>, and \<open>isDomainInZone\<close> accepts \<open>zone.\<close>. The three examples of the claim
  come first.
\<close>

theorem C5_not_right_aligned_accepted:
  "isDomainInZone ''test.zone.'' ''test.zone.''
   \<and> isDomainInZone ''sub.test.zone.'' ''test.zone.''
   \<and> \<not> isDomainInZone ''test.zone.evil.'' ''test.zone.''
   \<and> \<not> suffix (Split ''test.zone.'' (CHR ''.'')) (Split (fqdn ''zone.'') (CHR ''.''))
   \<and> isDomainInZone ''zone.'' ''test.zone.''"
  by code_simp

section \<open>Properties of the resolver\<close>

text \<open>
  When the name of the question can be packed, every builder call but the answer
  closure succeeds, and the response is decided by \<open>answerQuestion\<close>.
\<close>

lemma buildResponse_steps:
  assumes "Name_pack (qName q) = None"
    and "answerQuestion s (responseHeader_init qh) q = Inr (h, f)"
  shows "buildResponse s qh q =
     (case f \<lparr>bHeader = h, bSection = sectionAnswers, bCompression = True,
               bQuestions = [q], bAnswers = []\<rparr> of
        Inl err \<Rightarrow> Inl (Errorf ''failed to build answer'' err)
      | Inr b \<Rightarrow> Finish b)"
  using assms
  by (simp add: buildResponse_def NewBuilder_def EnableCompression_def StartQuestions_def
      startCheck_def Builder_Question_def StartAnswers_def)

lemma ipV4ToAResource_loopback: "ipV4ToAResource (IPv4 127 0 0 1) = [127, 0, 0, 1]"
  by (simp add: ipV4ToAResource_def IPv4_def v4InV6Prefix_def To4_def copy_def)

lemma ipV6ToAAAAResource_loopback:
  "ipV6ToAAAAResource ParseIP_loopback = [0, 0, 0, 0, 0, 0, 0, 0, 0, 0, 0, 0, 0, 0, 0, 1]"
  by (simp add: ipV6ToAAAAResource_def ParseIP_loopback_def copy_def)

lemma buildResponse_A:
  assumes "Name_pack (qName q) = None" and "in_zone s q" and "qType q = TypeA"
  shows "buildResponse s qh q =
     Inr \<lparr>mHeader = responseHeader_init qh, Questions = [q],
          Answers = [\<lparr>rHeader = \<lparr>rhName = qName q, rhType = TypeA, rhClass = ClassINET,
                                 rhTTL = 300, rhLength = 4\<rparr>,
                      rBody = AResource [127, 0, 0, 1]\<rparr>]\<rparr>"
proof -
  have "answerQuestion s (responseHeader_init qh) q =
      Inr (responseHeader_init qh,
           \<lambda>b. Builder_AResource b
                  \<lparr>rhName = qName q, rhType = TypeA, rhClass = ClassINET,
                   rhTTL = 300, rhLength = 0\<rparr> [127, 0, 0, 1])"
    using assms(2,3) by (auto simp: answerQuestion_def in_zone_def ipV4ToAResource_loopback)
  from buildResponse_steps[OF assms(1) this] show ?thesis
    using assms(1)
    by (simp add: Builder_AResource_def addResource_def checkResourceSection_def Finish_def)
qed

lemma buildResponse_AAAA:
  assumes "Name_pack (qName q) = None" and "in_zone s q" and "qType q = TypeAAAA"
  shows "buildResponse s qh q =
     Inr \<lparr>mHeader = responseHeader_init qh, Questions = [q],
          Answers = [\<lparr>rHeader = \<lparr>rhName = qName q, rhType = TypeAAAA, rhClass = ClassINET,
                                 rhTTL = 300, rhLength = 16\<rparr>,
                      rBody = AAAAResource [0, 0, 0, 0, 0, 0, 0, 0, 0, 0, 0, 0, 0, 0, 0, 1]\<rparr>]\<rparr>"
proof -
  have ne: "TypeAAAA \<noteq> TypeA" by (simp add: TypeA_def TypeAAAA_def)
  have "answerQuestion s (responseHeader_init qh) q =
      Inr (responseHeader_init qh,
           \<lambda>b. Builder_AAAAResource b
                  \<lparr>rhName = qName q, rhType = TypeAAAA, rhClass = ClassINET,
                   rhTTL = 300, rhLength = 0\<rparr> [0, 0, 0, 0, 0, 0, 0, 0, 0, 0, 0, 0, 0, 0, 0, 1])"
    using assms(2,3) ne
    by (auto simp: answerQuestion_def in_zone_def ipV6ToAAAAResource_loopback Let_def)
  from buildResponse_steps[OF assms(1) this] show ?thesis
    using assms(1)
    by (simp add: Builder_AAAAResource_def addResource_def checkResourceSection_def Finish_def)
qed

lemma buildResponse_out_of_zone:
  assumes "Name_pack (qName q) = None" and "\<not> in_zone s q"
  shows "buildResponse s qh q =
     Inr \<lparr>mHeader = (responseHeader_init qh)\<lparr>RCode := RCodeNameError\<rparr>,
          Questions = [q], Answers = []\<rparr>"
proof -
  have "answerQuestion s (responseHeader_init qh) q =
      Inr ((responseHeader_init qh)\<lparr>RCode := RCodeNameError\<rparr>, \<lambda>b. Inr b)"
    using assms(2) by (auto simp: answerQuestion_def in_zone_def)
  from buildResponse_steps[OF assms(1) this] show ?thesis
    by (simp add: Finish_def)
qed

lemma buildResponse_other_type:
  assumes "Name_pack (qName q) = None" and "in_zone s q"
    and "qType q \<noteq> TypeA" and "qType q \<noteq> TypeAAAA"
  shows "buildResponse s qh q =
     Inr \<lparr>mHeader = (responseHeader_init qh)\<lparr>RCode := RCodeNotImplemented\<rparr>,
          Questions = [q], Answers = []\<rparr>"
proof -
  have "answerQuestion s (responseHeader_init qh) q =
      Inr ((responseHeader_init qh)\<lparr>RCode := RCodeNotImplemented\<rparr>, \<lambda>b. Inr b)"
    using assms(2,3,4) by (auto simp: answerQuestion_def in_zone_def)
  from buildResponse_steps[OF assms(1) this] show ?thesis
    by (simp add: Finish_def)
qed

lemma buildResponse_unpackable:
  assumes "Name_pack (qName q) = Some err"
  shows "buildResponse s qh q = Inl (Errorf ''Question'' err)"
  using assms
  by (auto simp add: buildResponse_def answerQuestion_def Let_def NewBuilder_def EnableCompression_def StartQuestions_def
      startCheck_def Builder_Question_def)

text \<open>
  C1: for every single-question A query whose name can be packed and passes the zone
  filter (it is inside the configured zone, or no zone is configured), the built
  response has \<open>Response = true\<close>, \<open>RCode = Success\<close>, the transaction ID of the
  query, and exactly one answer record: type A, class INET, TTL 300, value 127.0.0.1.
  For every such AAAA query the single answer has type AAAA, class INET, TTL 300, value
  ::1.
\<close>

theorem C1_loopback_answer:
  assumes "Name_pack (qName q) = None" and "in_zone s q"
  shows "(qType q = TypeA \<longrightarrow>
           (\<exists>m. buildResponse s qh q = Inr m \<and> Response (mHeader m)
              \<and> RCode (mHeader m) = RCodeSuccess \<and> ID (mHeader m) = ID qh
              \<and> Answers m =
                  [\<lparr>rHeader = \<lparr>rhName = qName q, rhType = TypeA, rhClass = ClassINET,
                                rhTTL = 300, rhLength = 4\<rparr>,
                    rBody = AResource [127, 0, 0, 1]\<rparr>]))
       \<and> (qType q = TypeAAAA \<longrightarrow>
           (\<exists>m. buildResponse s qh q = Inr m \<and> Response (mHeader m)
              \<and> RCode (mHeader m) = RCodeSuccess \<and> ID (mHeader m) = ID qh
              \<and> Answers m =
                  [\<lparr>rHeader = \<lparr>rhName = qName q, rhType = TypeAAAA, rhClass = ClassINET,
                                rhTTL = 300, rhLength = 16\<rparr>,
                    rBody = AAAAResource [0, 0, 0, 0, 0, 0, 0, 0, 0, 0, 0, 0, 0, 0, 0, 1]\<rparr>]))"
proof (intro conjI impI)
  assume "qType q = TypeA"
  from buildResponse_A[OF assms this, of qh] show "\<exists>m. buildResponse s qh q = Inr m \<and> Response (mHeader m)
              \<and> RCode (mHeader m) = RCodeSuccess \<and> ID (mHeader m) = ID qh
              \<and> Answers m =
                  [\<lparr>rHeader = \<lparr>rhName = qName q, rhType = TypeA, rhClass = ClassINET,
                                rhTTL = 300, rhLength = 4\<rparr>,
                    rBody = AResource [127, 0, 0, 1]\<rparr>]"
    by (simp add: responseHeader_init_def)
next
  assume "qType q = TypeAAAA"
  from buildResponse_AAAA[OF assms this, of qh] show "\<exists>m. buildResponse s qh q = Inr m \<and> Response (mHeader m)
              \<and> RCode (mHeader m) = RCodeSuccess \<and> ID (mHeader m) = ID qh
              \<and> Answers m =
                  [\<lparr>rHeader = \<lparr>rhName = qName q, rhType = TypeAAAA, rhClass = ClassINET,
                                rhTTL = 300, rhLength = 16\<rparr>,
                    rBody = AAAAResource [0, 0, 0, 0, 0, 0, 0, 0, 0, 0, 0, 0, 0, 0, 0, 1]\<rparr>]"
    by (simp add: responseHeader_init_def)
qed

lemma Name_pack_test_zone: "Name_pack ''test.zone.'' = None"
  by (simp add: Name_pack_def)

lemma in_zone_test_zone:
  "in_zone (NewServer ''test.zone.'') \<lparr>qName = ''test.zone.'', qType = t, qClass = c\<rparr>"
  by (simp add: in_zone_def NewServer_def isDomainInZone_refl HasSuffix_def)

lemma in_zone_no_zone: "in_zone (NewServer []) q"
  by (simp add: in_zone_def NewServer_def)

text \<open>C1 at an A query in the zone, and at an AAAA query with no zone configured.\<close>

theorem C1_loopback_answer_witness:
  "Name_pack (qName \<lparr>qName = ''test.zone.'', qType = TypeA, qClass = ClassINET\<rparr>) = None
   \<and> in_zone (NewServer ''test.zone.'') \<lparr>qName = ''test.zone.'', qType = TypeA, qClass = ClassINET\<rparr>
   \<and> (\<exists>m. buildResponse (NewServer ''test.zone.'')
             \<lparr>ID = 1, Response = False, OpCode = 0, Authoritative = True, Truncated = False,
              RecursionDesired = True, RecursionAvailable = False, RCode = RCodeSuccess\<rparr>
             \<lparr>qName = ''test.zone.'', qType = TypeA, qClass = ClassINET\<rparr> = Inr m
          \<and> Response (mHeader m) \<and> RCode (mHeader m) = RCodeSuccess \<and> ID (mHeader m) = 1
          \<and> Answers m =
               [\<lparr>rHeader = \<lparr>rhName = ''test.zone.'', rhType = TypeA, rhClass = ClassINET,
                             rhTTL = 300, rhLength = 4\<rparr>,
                 rBody = AResource [127, 0, 0, 1]\<rparr>])
   \<and> Name_pack (qName \<lparr>qName = ''test.zone.'', qType = TypeAAAA, qClass = ClassINET\<rparr>) = None
   \<and> in_zone (NewServer []) \<lparr>qName = ''test.zone.'', qType = TypeAAAA, qClass = ClassINET\<rparr>
   \<and> (\<exists>m. buildResponse (NewServer [])
             \<lparr>ID = 7, Response = False, OpCode = 0, Authoritative = False, Truncated = False,
              RecursionDesired = False, RecursionAvailable = False, RCode = RCodeSuccess\<rparr>
             \<lparr>qName = ''test.zone.'', qType = TypeAAAA, qClass = ClassINET\<rparr> = Inr m
          \<and> Response (mHeader m) \<and> RCode (mHeader m) = RCodeSuccess \<and> ID (mHeader m) = 7
          \<and> Answers m =
               [\<lparr>rHeader = \<lparr>rhName = ''test.zone.'', rhType = TypeAAAA, rhClass = ClassINET,
                             rhTTL = 300, rhLength = 16\<rparr>,
                 rBody = AAAAResource [0, 0, 0, 0, 0, 0, 0, 0, 0, 0, 0, 0, 0, 0, 0, 1]\<rparr>])"
proof -
  let ?qA = "\<lparr>qName = ''test.zone.'', qType = TypeA, qClass = ClassINET\<rparr>"
  let ?qAAAA = "\<lparr>qName = ''test.zone.'', qType = TypeAAAA, qClass = ClassINET\<rparr>"
  have p: "Name_pack (qName ?qA) = None" "Name_pack (qName ?qAAAA) = None"
    by (simp_all add: Name_pack_test_zone)
  have z: "in_zone (NewServer ''test.zone.'') ?qA" "in_zone (NewServer []) ?qAAAA"
    by (rule in_zone_test_zone, rule in_zone_no_zone)
  show ?thesis
    using C1_loopback_answer [OF p(1) z(1), where qh = "\<lparr>ID = 1, Response = False,
          OpCode = 0, Authoritative = True, Truncated = False, RecursionDesired = True,
          RecursionAvailable = False, RCode = RCodeSuccess\<rparr>"]
      C1_loopback_answer [OF p(2) z(2), where qh = "\<lparr>ID = 7, Response = False,
          OpCode = 0, Authoritative = False, Truncated = False, RecursionDesired = False,
          RecursionAvailable = False, RCode = RCodeSuccess\<rparr>"] p z
    by simp
qed


section \<open>Properties of the parser\<close>

text \<open>
  Every name that \<open>Parser.Question\<close> returns is a sequence of well-formed labels of at
  most 255 bytes, so \<open>Name.pack\<close> accepts it: the question of a parsed query can always
  be echoed.
\<close>

lemma NOT_C0: "NOT (0xC0 :: byte) = 0x3F" by simp
lemma byte_split_C0: "(b :: byte) = (b AND 0xC0) OR (b AND NOT 0xC0)"
  by (simp add: bit.conj_disj_distrib[symmetric])
lemma label_len: 
  assumes "(b :: byte) AND 0xC0 = 0" shows "unat b < 64"
proof -
  have "b = 0 OR (b AND 0x3F)" using byte_split_C0[of b] unfolding assms NOT_C0 .
  then have "b = b AND 0x3F" by simp
  moreover have "b AND 0x3F \<le> 0x3F" by (rule word_and_le1)
  ultimately have "b \<le> 0x3F" by simp
  then have "unat b \<le> unat (0x3F :: byte)" by (simp add: word_le_nat_alt)
  then show ?thesis by simp
qed

lemma char_dot: "char_of (unat (b :: byte)) = CHR ''.'' \<Longrightarrow> b = 0x2E"
proof -
  assume a: "char_of (unat b) = CHR ''.''"
  have "of_char (char_of (unat b)) = (unat b) mod 256" by (simp add: of_char_of)
  moreover have "unat b < 2 ^ LENGTH(8)" by (rule unsigned_less)
  ultimately have "unat b = of_char (CHR ''.'')" using a by simp
  then have "unat b = 46" by simp
  then have "word_of_nat (unat b) = (word_of_nat 46 :: byte)" by simp
  then show ?thesis by simp
qed


lemma join_labels_snoc: "join_labels (ls @ [l]) = join_labels ls @ l @ ''.''"
  by (simp add: join_labels_def)

lemma bytes_string_good:
  assumes "(msg ! cur) AND 0xC0 = 0" and "msg ! cur \<noteq> 0"
    and "\<not> cur + 1 + unat (msg ! cur) > length msg"
    and "\<not> list_ex (\<lambda>v. v = 0x2E) (take (unat (msg ! cur)) (drop (cur + 1) msg))"
  shows "good_label (bytes_string (take (unat (msg ! cur)) (drop (cur + 1) msg)))"
proof -
  let ?c = "unat (msg ! cur)"
  let ?bs = "take ?c (drop (cur + 1) msg)"
  have len: "length ?bs = ?c" using assms(3) by simp
  have "?c \<noteq> 0" using assms(2) by (simp add: unat_eq_0)
  moreover have "?c < 64" using assms(1) by (rule label_len)
  moreover have "CHR ''.'' \<notin> set (bytes_string ?bs)"
  proof
    assume "CHR ''.'' \<in> set (bytes_string ?bs)"
    then obtain b where b: "b \<in> set ?bs" "char_of (unat b) = CHR ''.''"
      by (auto simp: bytes_string_def)
    then have "b = 0x2E" by (simp add: char_dot)
    with b(1) assms(4) show False by (auto simp: list_ex_iff)
  qed
  ultimately show ?thesis using len by (auto simp: good_label_def bytes_string_def)
qed

lemma Name_unpack_loop_labels:
  "Name_unpack_loop msg cur new ptr name = Inr (name', c, n, p) \<Longrightarrow>
   name = join_labels ls \<Longrightarrow> list_all good_label ls \<Longrightarrow>
   \<exists>ls'. list_all good_label ls' \<and> name' = join_labels ls'"
proof (induction msg cur new ptr name arbitrary: ls rule: Name_unpack_loop.induct)
  case (1 msg cur new ptr name)
  note r = "1.prems"(1)
  show ?case
  proof (cases "cur \<ge> length msg")
    case True
    with r show ?thesis by (subst (asm) Name_unpack_loop.simps) simp
  next
    case inb: False
    show ?thesis
    proof (cases "(msg ! cur) AND 0xC0 = 0x00")
      case lab: True
      show ?thesis
      proof (cases "msg ! cur = 0x00")
        case True
        with r inb lab have "name' = name"
          by (subst (asm) Name_unpack_loop.simps) simp
        with "1.prems" show ?thesis by blast
      next
        case nz: False
        show ?thesis
        proof (cases "cur + 1 + unat (msg ! cur) > length msg")
          case True
          with r inb lab nz show ?thesis
            by (subst (asm) Name_unpack_loop.simps) simp
        next
          case fits: False
          show ?thesis
          proof (cases "list_ex (\<lambda>v. v = 0x2E) (take (unat (msg ! cur)) (drop (cur + 1) msg))")
            case True
            with r inb lab nz fits show ?thesis
              by (subst (asm) Name_unpack_loop.simps) simp
          next
            case nodot: False
            let ?l = "bytes_string (take (unat (msg ! cur)) (drop (cur + 1) msg))"
            have rec: "Name_unpack_loop msg (cur + 1 + unat (msg ! cur)) new ptr
                (name @ ?l @ ''.'') = Inr (name', c, n, p)"
              using r inb lab nz fits nodot
              by (subst (asm) Name_unpack_loop.simps) simp
            have g: "good_label ?l"
              using lab nz fits nodot by (rule bytes_string_good)
            have "name @ ?l @ ''.'' = join_labels (ls @ [?l])"
              using "1.prems"(2) by (simp add: join_labels_snoc)
            moreover have "list_all good_label (ls @ [?l])"
              using "1.prems"(3) g by simp
            ultimately show ?thesis
              using "1.IH"(1)[OF inb lab nz fits nodot rec] by blast
          qed
        qed
      qed
    next
      case nolab: False
      show ?thesis
      proof (cases "(msg ! cur) AND 0xC0 = 0xC0")
        case False
        with r inb nolab show ?thesis
          by (subst (asm) Name_unpack_loop.simps) simp
      next
        case isptr: True
        show ?thesis
        proof (cases "cur + 1 \<ge> length msg")
          case True
          with r inb nolab isptr show ?thesis
            by (subst (asm) Name_unpack_loop.simps) simp
        next
          case p1: False
          show ?thesis
          proof (cases "ptr + 1 > 10")
            case True
            with r inb nolab isptr p1 show ?thesis
              by (subst (asm) Name_unpack_loop.simps) simp
          next
            case p2: False
            have rec: "Name_unpack_loop msg
                (push_bit 8 (unat ((msg ! cur) XOR 0xC0)) OR unat (msg ! (cur + 1)))
                (if ptr = 0 then cur + 2 else new) (ptr + 1) name = Inr (name', c, n, p)"
              using r inb nolab isptr p1 p2
              by (subst (asm) Name_unpack_loop.simps) simp
            show ?thesis
              using "1.IH"(2)[OF inb nolab isptr p1 p2 rec "1.prems"(2) "1.prems"(3)] .
          qed
        qed
      qed
    qed
  qed
qed


lemma Split_no_sep: "sep \<notin> set l \<Longrightarrow> Split l sep = [l]"
  by (induction l) (auto split: list.splits)

lemma Split_join_labels:
  "list_all good_label ls \<Longrightarrow> Split (join_labels ls) (CHR ''.'') = ls @ [[]]"
proof (induction ls)
  case Nil
  then show ?case by (simp add: join_labels_def)
next
  case (Cons l ls)
  have "join_labels (l # ls) = l @ CHR ''.'' # join_labels ls"
    by (simp add: join_labels_def)
  moreover have "Split l (CHR ''.'') = [l]"
    using Cons.prems by (simp add: good_label_def Split_no_sep)
  ultimately show ?case
    using Cons by (simp add: Split_append_sep)
qed

lemma segments_err_good: "list_all good_label ls \<Longrightarrow> segments_err ls = None"
  by (induction ls) (auto simp: good_label_def)

lemma join_labels_last:
  "ls \<noteq> [] \<Longrightarrow> join_labels ls \<noteq> [] \<and> last (join_labels ls) = CHR ''.''"
  by (cases ls rule: rev_cases) (auto simp: join_labels_snoc)

lemma Name_pack_join_labels:
  assumes "list_all good_label ls" and "ls \<noteq> []" and "length (join_labels ls) \<le> 255"
  shows "Name_pack (join_labels ls) = None"
  using assms join_labels_last[OF assms(2)]
  by (simp add: Name_pack_def Split_join_labels segments_err_good)

lemma Name_unpack_packs:
  assumes "Name_unpack msg off = Inr (name, off')"
  shows "Name_pack name = None"
proof -
  from assms obtain nm c n p where
    l: "Name_unpack_loop msg off off 0 [] = Inr (nm, c, n, p)"
    and nm: "name = (if length nm = 0 then ''.'' else nm)" and len: "length name \<le> 255"
    by (auto simp: Name_unpack_def Let_def split: sum.splits if_splits)
  from Name_unpack_loop_labels[OF l, of "[]"] obtain ls
    where ls: "list_all good_label ls" "nm = join_labels ls"
    by (auto simp: join_labels_def)
  show ?thesis
  proof (cases "nm = []")
    case True
    with nm show ?thesis by (simp add: Name_pack_def)
  next
    case False
    with ls(2) have "ls \<noteq> []" by (auto simp: join_labels_def)
    with ls nm len False show ?thesis by (simp add: Name_pack_join_labels)
  qed
qed

lemma Parser_Question_packs:
  assumes "Parser_Question p = Inr (q, p')"
  shows "Name_pack (qName q) = None"
proof -
  from assms have "\<exists>msg off off'. Name_unpack msg off = Inr (qName q, off')"
    by (fastforce simp: Parser_Question_def split: sum.splits)
  then show ?thesis using Name_unpack_packs by blast
qed

section \<open>Properties of the query handler\<close>

lemma buildResponse_total:
  assumes "Name_pack (qName q) = None"
  shows "\<exists>m. buildResponse s qh q = Inr m"
proof (cases "in_zone s q")
  case False
  with assms show ?thesis by (simp add: buildResponse_out_of_zone)
next
  case z: True
  show ?thesis
  proof (cases "qType q = TypeA")
    case True
    from buildResponse_A[OF assms z True] show ?thesis by blast
  next
    case nA: False
    show ?thesis
    proof (cases "qType q = TypeAAAA")
      case True
      from buildResponse_AAAA[OF assms z True] show ?thesis by blast
    next
      case False
      from buildResponse_other_type[OF assms z nA False] show ?thesis by blast
    qed
  qed
qed

lemma handleQuery_parsed:
  assumes "Parser_Start query = Inr (qh, p)" and "Parser_Question p = Inr (q, p')"
    and "buildResponse s qh q = Inr m" and "\<not> closed c"
  shows "handleQuery s c src query = (None, c\<lparr>sent := sent c @ [(m, src)]\<rparr>)"
  using assms by (simp add: handleQuery_def WriteToUDP_def)

lemma handleQuery_Start_error:
  "Parser_Start query = Inl err \<Longrightarrow>
   handleQuery s c src query = (Some (Errorf ''failed to parse DNS query header'' err), c)"
  by (simp add: handleQuery_def)

lemma handleQuery_Question_error:
  "Parser_Start query = Inr (qh, p) \<Longrightarrow> Parser_Question p = Inl err \<Longrightarrow>
   handleQuery s c src query = (Some (Errorf ''failed to parse DNS question'' err), c)"
  by (simp add: handleQuery_def)

lemma Parser_Start_parser:
  assumes "Parser_Start query = Inr (qh, p)"
  shows "\<exists>h off. header_unpack query 0 = Inr (h, off) \<and> qh = header_of h \<and>
     p = \<lparr>pMsg = query, pHeader = h, pSection = sectionQuestions, pOff = off, pIndex = 0\<rparr>"
proof (cases "header_unpack query 0")
  case (Inl e)
  with assms show ?thesis by (simp add: Parser_Start_def)
next
  case (Inr r)
  with assms show ?thesis by (cases r) (simp add: Parser_Start_def)
qed

lemma Parser_Question_no_questions:
  assumes "Parser_Start query = Inr (qh, p)" and "question_count query = Some 0"
  shows "Parser_Question p = Inl ErrSectionDone"
proof -
  from Parser_Start_parser[OF assms(1)] obtain h off where
    p: "p = \<lparr>pMsg = query, pHeader = h, pSection = sectionQuestions, pOff = off, pIndex = 0\<rparr>"
    by blast
  from assms have "unat (h_questions (pHeader p)) = 0"
    by (simp add: question_count_def)
  with p show ?thesis by (simp add: Parser_Question_def checkAdvance_def)
qed

text \<open>
  C4, as the code has it: for every inbound datagram whose header cannot be parsed,
  whose first question cannot be parsed, or whose header announces no question,
  \<open>handleQuery\<close> returns an error before any write and the socket is left as it was: no
  response datagram is sent. (A datagram that announces more than one question is not
  among them: the server parses its first question and answers it.)
\<close>

theorem C4_unparsed_datagram_dropped:
  "(\<forall>err. Parser_Start query = Inl err \<longrightarrow>
      handleQuery s c src query = (Some (Errorf ''failed to parse DNS query header'' err), c))
   \<and> (\<forall>qh p err. Parser_Start query = Inr (qh, p) \<and> Parser_Question p = Inl err \<longrightarrow>
      handleQuery s c src query = (Some (Errorf ''failed to parse DNS question'' err), c))
   \<and> (\<forall>qh p. Parser_Start query = Inr (qh, p) \<and> question_count query = Some 0 \<longrightarrow>
      handleQuery s c src query =
        (Some (Errorf ''failed to parse DNS question'' ErrSectionDone), c))"
proof (intro conjI allI impI)
  fix err assume "Parser_Start query = Inl err"
  then show "handleQuery s c src query =
      (Some (Errorf ''failed to parse DNS query header'' err), c)"
    by (rule handleQuery_Start_error)
next
  fix qh p err assume "Parser_Start query = Inr (qh, p) \<and> Parser_Question p = Inl err"
  then show "handleQuery s c src query =
      (Some (Errorf ''failed to parse DNS question'' err), c)"
    by (simp add: handleQuery_Question_error)
next
  fix qh p assume a: "Parser_Start query = Inr (qh, p) \<and> question_count query = Some 0"
  then have "Parser_Question p = Inl ErrSectionDone"
    using Parser_Question_no_questions by blast
  with a show "handleQuery s c src query =
      (Some (Errorf ''failed to parse DNS question'' ErrSectionDone), c)"
    by (simp add: handleQuery_Question_error)
qed

lemma header_unpack_two_questions:
  "header_unpack two_questions 0 =
     Inr (\<lparr>h_id = 1, h_bits = 256, h_questions = 2, h_answers = 0,
           h_authorities = 0, h_additionals = 0\<rparr>, 12)"
  by (simp add: two_questions_def unpackUint16_def header_unpack_def)

lemma Parser_Start_two_questions:
  "Parser_Start two_questions =
     Inr (\<lparr>ID = 1, Response = False, OpCode = 0, Authoritative = False, Truncated = False,
           RecursionDesired = True, RecursionAvailable = False, RCode = 0\<rparr>,
          \<lparr>pMsg = two_questions,
           pHeader = \<lparr>h_id = 1, h_bits = 256, h_questions = 2, h_answers = 0,
                      h_authorities = 0, h_additionals = 0\<rparr>,
           pSection = sectionQuestions, pOff = 12, pIndex = 0\<rparr>)"
  by (simp add: Parser_Start_def header_unpack_two_questions header_of_def headerBitQR_def
      headerBitAA_def headerBitTC_def headerBitRD_def headerBitRA_def)

lemma Name_unpack_two_questions: "Name_unpack two_questions 12 = Inr (''test.zone.'', 23)"
  by (simp add: Name_unpack_def two_questions_def Name_unpack_loop.simps bytes_string_def
      char_of_def bit_Suc_0_iff)

lemma Parser_Question_two_questions:
  "Parser_Question
     \<lparr>pMsg = two_questions,
      pHeader = \<lparr>h_id = 1, h_bits = 256, h_questions = 2, h_answers = 0,
                 h_authorities = 0, h_additionals = 0\<rparr>,
      pSection = sectionQuestions, pOff = 12, pIndex = 0\<rparr> =
   Inr (\<lparr>qName = ''test.zone.'', qType = TypeA, qClass = ClassINET\<rparr>,
        \<lparr>pMsg = two_questions,
         pHeader = \<lparr>h_id = 1, h_bits = 256, h_questions = 2, h_answers = 0,
                    h_authorities = 0, h_additionals = 0\<rparr>,
         pSection = sectionQuestions, pOff = 27, pIndex = 1\<rparr>)"
  by (simp add: Parser_Question_def checkAdvance_def Name_unpack_two_questions)
     (simp add: unpackUint16_def two_questions_def TypeA_def ClassINET_def)

lemma question_count_two_questions: "question_count two_questions = Some 2"
  by (simp add: question_count_def Parser_Start_two_questions)

lemma buildResponse_test_zone_A:
  "buildResponse (NewServer ''test.zone.'') qh
     \<lparr>qName = ''test.zone.'', qType = TypeA, qClass = ClassINET\<rparr> =
   Inr \<lparr>mHeader = responseHeader_init qh,
        Questions = [\<lparr>qName = ''test.zone.'', qType = TypeA, qClass = ClassINET\<rparr>],
        Answers = [\<lparr>rHeader = \<lparr>rhName = ''test.zone.'', rhType = TypeA, rhClass = ClassINET,
                               rhTTL = 300, rhLength = 4\<rparr>,
                    rBody = AResource [127, 0, 0, 1]\<rparr>]\<rparr>"
  using buildResponse_A[of "\<lparr>qName = ''test.zone.'', qType = TypeA, qClass = ClassINET\<rparr>"
      "NewServer ''test.zone.''" qh]
  by (simp add: Name_pack_test_zone in_zone_test_zone)

text \<open>
  C4 as stated also promises that a datagram with more than one question gets no
  response. The datagram \<open>two_questions\<close> announces two questions, and \<open>handleQuery\<close>
  writes the answer to its first question to the client.
\<close>

theorem C4_two_questions_answered:
  "question_count two_questions = Some 2
   \<and> handleQuery (NewServer ''test.zone.'') \<lparr>closed = False, sent = []\<rparr> ''client''
        two_questions =
      (None,
       \<lparr>closed = False,
        sent = [(\<lparr>mHeader = \<lparr>ID = 1, Response = True, OpCode = 0, Authoritative = True,
                              Truncated = False, RecursionDesired = True,
                              RecursionAvailable = False, RCode = RCodeSuccess\<rparr>,
                  Questions = [\<lparr>qName = ''test.zone.'', qType = TypeA, qClass = ClassINET\<rparr>],
                  Answers = [\<lparr>rHeader = \<lparr>rhName = ''test.zone.'', rhType = TypeA,
                                         rhClass = ClassINET, rhTTL = 300, rhLength = 4\<rparr>,
                              rBody = AResource [127, 0, 0, 1]\<rparr>]\<rparr>,
                 ''client'')]\<rparr>)"
  using handleQuery_parsed[OF Parser_Start_two_questions Parser_Question_two_questions
      buildResponse_test_zone_A, of "\<lparr>closed = False, sent = []\<rparr>" "''client''"]
  by (simp add: question_count_two_questions responseHeader_init_def)

lemma Parser_Start_no_questions:
  "Parser_Start no_questions =
     Inr (\<lparr>ID = 1, Response = False, OpCode = 0, Authoritative = False, Truncated = False,
           RecursionDesired = True, RecursionAvailable = False, RCode = 0\<rparr>,
          \<lparr>pMsg = no_questions,
           pHeader = \<lparr>h_id = 1, h_bits = 256, h_questions = 0, h_answers = 0,
                      h_authorities = 0, h_additionals = 0\<rparr>,
           pSection = sectionQuestions, pOff = 12, pIndex = 0\<rparr>)"
  by (simp add: Parser_Start_def no_questions_def unpackUint16_def header_unpack_def
      header_of_def headerBitQR_def headerBitAA_def headerBitTC_def headerBitRD_def
      headerBitRA_def)

lemma Parser_Start_short: "Parser_Start [0, 1, 2] = Inl (Errorf ''unpacking header'' (Errorf ''bits'' errBaseLen))"
  by (simp add: Parser_Start_def unpackUint16_def header_unpack_def)

lemma Parser_Start_truncated_question:
  "Parser_Start truncated_question =
     Inr (\<lparr>ID = 1, Response = False, OpCode = 0, Authoritative = False, Truncated = False,
           RecursionDesired = True, RecursionAvailable = False, RCode = 0\<rparr>,
          \<lparr>pMsg = truncated_question,
           pHeader = \<lparr>h_id = 1, h_bits = 256, h_questions = 1, h_answers = 0,
                      h_authorities = 0, h_additionals = 0\<rparr>,
           pSection = sectionQuestions, pOff = 12, pIndex = 0\<rparr>)"
  by (simp add: Parser_Start_def truncated_question_def unpackUint16_def header_unpack_def
      header_of_def headerBitQR_def headerBitAA_def headerBitTC_def headerBitRD_def
      headerBitRA_def)

lemma Parser_Question_truncated_question:
  "Parser_Question
     \<lparr>pMsg = truncated_question,
      pHeader = \<lparr>h_id = 1, h_bits = 256, h_questions = 1, h_answers = 0,
                 h_authorities = 0, h_additionals = 0\<rparr>,
      pSection = sectionQuestions, pOff = 12, pIndex = 0\<rparr> =
   Inl (Errorf ''unpacking Question.Name'' errCalcLen)"
  by (simp add: Parser_Question_def checkAdvance_def Name_unpack_def truncated_question_def
      Name_unpack_loop.simps)

text \<open>
  C4 at three datagrams: three bytes (no header), a header that announces no question,
  and a question cut short. None is answered.
\<close>

theorem C4_unparsed_datagram_dropped_witness:
  "Parser_Start [0, 1, 2] = Inl (Errorf ''unpacking header'' (Errorf ''bits'' errBaseLen))
   \<and> handleQuery (NewServer ''test.zone.'') \<lparr>closed = False, sent = []\<rparr> ''client'' [0, 1, 2] =
       (Some (Errorf ''failed to parse DNS query header''
               (Errorf ''unpacking header'' (Errorf ''bits'' errBaseLen))),
        \<lparr>closed = False, sent = []\<rparr>)
   \<and> question_count no_questions = Some 0
   \<and> handleQuery (NewServer ''test.zone.'') \<lparr>closed = False, sent = []\<rparr> ''client''
        no_questions =
       (Some (Errorf ''failed to parse DNS question'' ErrSectionDone),
        \<lparr>closed = False, sent = []\<rparr>)
   \<and> handleQuery (NewServer ''test.zone.'') \<lparr>closed = False, sent = []\<rparr> ''client''
        truncated_question =
       (Some (Errorf ''failed to parse DNS question''
               (Errorf ''unpacking Question.Name'' errCalcLen)),
        \<lparr>closed = False, sent = []\<rparr>)"
proof -
  let ?s = "NewServer ''test.zone.''"
  let ?c = "\<lparr>closed = False, sent = []\<rparr>"
  have q0: "question_count no_questions = Some 0"
    by (simp add: question_count_def Parser_Start_no_questions)
  note t1 = C4_unparsed_datagram_dropped [of "[0, 1, 2]" ?s ?c "''client''"]
  note t2 = C4_unparsed_datagram_dropped [of no_questions ?s ?c "''client''"]
  note t3 = C4_unparsed_datagram_dropped [of truncated_question ?s ?c "''client''"]
  from t1 Parser_Start_short have a:
    "handleQuery ?s ?c ''client'' [0, 1, 2] =
       (Some (Errorf ''failed to parse DNS query header''
               (Errorf ''unpacking header'' (Errorf ''bits'' errBaseLen))), ?c)"
    by blast
  from t2 Parser_Start_no_questions q0 have b:
    "handleQuery ?s ?c ''client'' no_questions =
       (Some (Errorf ''failed to parse DNS question'' ErrSectionDone), ?c)"
    by blast
  from t3 Parser_Start_truncated_question Parser_Question_truncated_question have c:
    "handleQuery ?s ?c ''client'' truncated_question =
       (Some (Errorf ''failed to parse DNS question''
               (Errorf ''unpacking Question.Name'' errCalcLen)), ?c)"
    by blast
  from a b c q0 Parser_Start_short show ?thesis by simp
qed



lemma Name_pack_wrong_zone: "Name_pack ''wrong.zone.'' = None"
  by (simp add: Name_pack_def)





text \<open>\<open>answerQuestion\<close> changes nothing of the header but the response code.\<close>

lemma answerQuestion_header:
  "\<exists>r f. answerQuestion s h q = Inr (h\<lparr>RCode := r\<rparr>, f)
     \<and> (r = RCode h \<or> r = RCodeNameError \<or> r = RCodeNotImplemented)"
proof -
  have h: "h = h\<lparr>RCode := RCode h\<rparr>" by simp
  show ?thesis
  proof (cases "zone s \<noteq> [] \<and> \<not> isDomainInZone (qName q) (zone s)")
    case True
    then have "answerQuestion s h q = Inr (h\<lparr>RCode := RCodeNameError\<rparr>, \<lambda>b. Inr b)"
      by (simp add: answerQuestion_def)
    then show ?thesis by blast
  next
    case nz: False
    show ?thesis
    proof (cases "qType q = TypeA")
      case True
      with nz have "\<exists>f. answerQuestion s h q = Inr (h, f)"
        by (auto simp add: answerQuestion_def)
      with h show ?thesis by metis
    next
      case nA: False
      show ?thesis
      proof (cases "qType q = TypeAAAA")
        case True
        with nz nA have "\<exists>f. answerQuestion s h q = Inr (h, f)"
          by (auto simp add: answerQuestion_def Let_def)
        with h show ?thesis by metis
      next
        case False
        with nz nA have "answerQuestion s h q =
            Inr (h\<lparr>RCode := RCodeNotImplemented\<rparr>, \<lambda>b. Inr b)"
          by (auto simp add: answerQuestion_def)
        then show ?thesis by blast
      qed
    qed
  qed
qed

lemma buildResponse_header:
  assumes "buildResponse s qh q = Inr m"
  shows "\<exists>r. mHeader m = (responseHeader_init qh)\<lparr>RCode := r\<rparr>
           \<and> (r = RCodeSuccess \<or> r = RCodeNameError \<or> r = RCodeNotImplemented)"
proof (cases "Name_pack (qName q)")
  case (Some err)
  with assms show ?thesis by (simp add: buildResponse_unpackable)
next
  case None
  have i: "RCode (responseHeader_init qh) = RCodeSuccess" by (simp add: responseHeader_init_def)
  show ?thesis
  proof (cases "in_zone s q")
    case False
    from buildResponse_out_of_zone[OF None False, of qh] assms show ?thesis by auto
  next
    case z: True
    show ?thesis
    proof (cases "qType q = TypeA")
      case True
      from buildResponse_A[OF None z True, of qh] assms have "mHeader m = responseHeader_init qh" by simp
      then show ?thesis by (intro exI[of _ RCodeSuccess]) (simp add: responseHeader_init_def)
    next
      case nA: False
      show ?thesis
      proof (cases "qType q = TypeAAAA")
        case True
        from buildResponse_AAAA[OF None z True, of qh] assms have "mHeader m = responseHeader_init qh" by simp
        then show ?thesis by (intro exI[of _ RCodeSuccess]) (simp add: responseHeader_init_def)
      next
        case False
        from buildResponse_other_type[OF None z nA False, of qh] assms show ?thesis by auto
      qed
    qed
  qed
qed

text \<open>
  C6: for every query, the header of the response that \<open>buildResponse\<close> builds has the
  transaction ID of the query, \<open>Response = true\<close>, \<open>OpCode = 0\<close>,
  \<open>Authoritative = true\<close>, \<open>Truncated = false\<close>, the \<open>RecursionDesired\<close> of the query
  header and \<open>RecursionAvailable = false\<close>, whatever the name, the type and the zone are.
  The header starts with \<open>RCode = Success\<close>, and the built header is the initial one but
  for its response code, which is \<open>Success\<close>, \<open>NameError\<close> or \<open>NotImplemented\<close>. When
  the name of the question can be packed (as every parsed name can), a response is built.
\<close>

theorem C6_response_header:
  "(\<forall>m. buildResponse s qh q = Inr m \<longrightarrow>
      ID (mHeader m) = ID qh \<and> Response (mHeader m) \<and> OpCode (mHeader m) = 0
      \<and> Authoritative (mHeader m) \<and> \<not> Truncated (mHeader m)
      \<and> RecursionDesired (mHeader m) = RecursionDesired qh
      \<and> \<not> RecursionAvailable (mHeader m)
      \<and> mHeader m = (responseHeader_init qh)\<lparr>RCode := RCode (mHeader m)\<rparr>
      \<and> (RCode (mHeader m) = RCodeSuccess \<or> RCode (mHeader m) = RCodeNameError
           \<or> RCode (mHeader m) = RCodeNotImplemented))
   \<and> RCode (responseHeader_init qh) = RCodeSuccess
   \<and> (Name_pack (qName q) = None \<longrightarrow> (\<exists>m. buildResponse s qh q = Inr m))"
proof (intro conjI allI impI)
  fix m assume a: "buildResponse s qh q = Inr m"
  from buildResponse_header[OF a] obtain r where
    r: "mHeader m = (responseHeader_init qh)\<lparr>RCode := r\<rparr>"
       "r = RCodeSuccess \<or> r = RCodeNameError \<or> r = RCodeNotImplemented"
    by blast
  from r(1) show "ID (mHeader m) = ID qh" "Response (mHeader m)" "OpCode (mHeader m) = 0"
    "Authoritative (mHeader m)" "\<not> Truncated (mHeader m)"
    "RecursionDesired (mHeader m) = RecursionDesired qh" "\<not> RecursionAvailable (mHeader m)"
    by (simp_all add: responseHeader_init_def)
  from r(1) show "mHeader m = (responseHeader_init qh)\<lparr>RCode := RCode (mHeader m)\<rparr>"
    by simp
  from r show "RCode (mHeader m) = RCodeSuccess \<or> RCode (mHeader m) = RCodeNameError
           \<or> RCode (mHeader m) = RCodeNotImplemented"
    by auto
next
  show "RCode (responseHeader_init qh) = RCodeSuccess" by (simp add: responseHeader_init_def)
next
  assume "Name_pack (qName q) = None"
  then show "\<exists>m. buildResponse s qh q = Inr m" by (rule buildResponse_total)
qed

text \<open>
  C6 at a query header with every flag set against the response's, and an out-of-zone
  AAAA question of class CHAOS.
\<close>

theorem C6_response_header_witness:
  "Name_pack (qName \<lparr>qName = ''wrong.zone.'', qType = TypeAAAA, qClass = ClassCHAOS\<rparr>) = None
   \<and> (\<exists>m. buildResponse (NewServer ''test.zone.'')
             \<lparr>ID = 0xBEEF, Response = False, OpCode = 2, Authoritative = False, Truncated = True,
              RecursionDesired = True, RecursionAvailable = True, RCode = 5\<rparr>
             \<lparr>qName = ''wrong.zone.'', qType = TypeAAAA, qClass = ClassCHAOS\<rparr> = Inr m
          \<and> ID (mHeader m) = 0xBEEF \<and> Response (mHeader m) \<and> OpCode (mHeader m) = 0
          \<and> Authoritative (mHeader m) \<and> \<not> Truncated (mHeader m)
          \<and> RecursionDesired (mHeader m) \<and> \<not> RecursionAvailable (mHeader m))"
proof -
  let ?s = "NewServer ''test.zone.''"
  let ?qh = "\<lparr>ID = 0xBEEF, Response = False, OpCode = 2, Authoritative = False, Truncated = True,
              RecursionDesired = True, RecursionAvailable = True, RCode = 5\<rparr>"
  let ?q = "\<lparr>qName = ''wrong.zone.'', qType = TypeAAAA, qClass = ClassCHAOS\<rparr>"
  have p: "Name_pack (qName ?q) = None" by (simp add: Name_pack_wrong_zone)
  note t = C6_response_header [of ?s ?qh ?q]
  from t p obtain m where m: "buildResponse ?s ?qh ?q = Inr m" by blast
  with t have "ID (mHeader m) = ID ?qh \<and> Response (mHeader m) \<and> OpCode (mHeader m) = 0
      \<and> Authoritative (mHeader m) \<and> \<not> Truncated (mHeader m)
      \<and> RecursionDesired (mHeader m) = RecursionDesired ?qh
      \<and> \<not> RecursionAvailable (mHeader m)" by blast
  with m p show ?thesis by simp
qed

lemma in_zone_qClass: "in_zone s (q\<lparr>qClass := c\<rparr>) = in_zone s q"
  by (simp add: in_zone_def)

text \<open>
  C10: the class of the question is never examined. The header and the answers of the
  response (or the error) are the same whatever class the question has; in particular
  every question of type A that passes the zone filter gets the class-INET answer
  127.0.0.1 with \<open>RCode = Success\<close>, and every such question of type AAAA the
  class-INET answer ::1, for every class \<open>c\<close> of the question.
\<close>

theorem C10_class_not_examined:
  "map_sum id (\<lambda>m. (mHeader m, Answers m)) (buildResponse s qh (q\<lparr>qClass := c\<rparr>)) =
     map_sum id (\<lambda>m. (mHeader m, Answers m)) (buildResponse s qh q)
   \<and> (Name_pack (qName q) = None \<and> in_zone s q \<and> qType q = TypeA \<longrightarrow>
        (\<exists>m. buildResponse s qh (q\<lparr>qClass := c\<rparr>) = Inr m
           \<and> RCode (mHeader m) = RCodeSuccess
           \<and> Answers m =
               [\<lparr>rHeader = \<lparr>rhName = qName q, rhType = TypeA, rhClass = ClassINET,
                             rhTTL = 300, rhLength = 4\<rparr>,
                 rBody = AResource [127, 0, 0, 1]\<rparr>]))
   \<and> (Name_pack (qName q) = None \<and> in_zone s q \<and> qType q = TypeAAAA \<longrightarrow>
        (\<exists>m. buildResponse s qh (q\<lparr>qClass := c\<rparr>) = Inr m
           \<and> RCode (mHeader m) = RCodeSuccess
           \<and> Answers m =
               [\<lparr>rHeader = \<lparr>rhName = qName q, rhType = TypeAAAA, rhClass = ClassINET,
                             rhTTL = 300, rhLength = 16\<rparr>,
                 rBody = AAAAResource [0, 0, 0, 0, 0, 0, 0, 0, 0, 0, 0, 0, 0, 0, 0, 1]\<rparr>]))"
proof (intro conjI impI)
  let ?q' = "q\<lparr>qClass := c\<rparr>"
  show "map_sum id (\<lambda>m. (mHeader m, Answers m)) (buildResponse s qh ?q') =
     map_sum id (\<lambda>m. (mHeader m, Answers m)) (buildResponse s qh q)"
  proof (cases "Name_pack (qName q)")
    case (Some err)
    then show ?thesis by (simp add: buildResponse_unpackable)
  next
    case None
    then have n': "Name_pack (qName ?q') = None" by simp
    show ?thesis
    proof (cases "in_zone s q")
      case False
      then have "\<not> in_zone s ?q'" by (simp add: in_zone_qClass)
      from buildResponse_out_of_zone[OF n' this] buildResponse_out_of_zone[OF None False]
      show ?thesis by simp
    next
      case z: True
      then have z': "in_zone s ?q'" by (simp add: in_zone_qClass)
      show ?thesis
      proof (cases "qType q = TypeA")
        case True
        then have "qType ?q' = TypeA" by simp
        from buildResponse_A[OF n' z' this] buildResponse_A[OF None z True]
        show ?thesis by simp
      next
        case nA: False
        show ?thesis
        proof (cases "qType q = TypeAAAA")
          case True
          then have "qType ?q' = TypeAAAA" by simp
          from buildResponse_AAAA[OF n' z' this] buildResponse_AAAA[OF None z True]
          show ?thesis by simp
        next
          case False
          with nA have "qType ?q' \<noteq> TypeA" "qType ?q' \<noteq> TypeAAAA" by simp_all
          from buildResponse_other_type[OF n' z' this]
            buildResponse_other_type[OF None z nA False]
          show ?thesis by simp
        qed
      qed
    qed
  qed
next
  assume a: "Name_pack (qName q) = None \<and> in_zone s q \<and> qType q = TypeA"
  then have "Name_pack (qName (q\<lparr>qClass := c\<rparr>)) = None" "in_zone s (q\<lparr>qClass := c\<rparr>)"
    "qType (q\<lparr>qClass := c\<rparr>) = TypeA" by (simp_all add: in_zone_qClass)
  from buildResponse_A[OF this, of qh]
  show "\<exists>m. buildResponse s qh (q\<lparr>qClass := c\<rparr>) = Inr m
           \<and> RCode (mHeader m) = RCodeSuccess
           \<and> Answers m =
               [\<lparr>rHeader = \<lparr>rhName = qName q, rhType = TypeA, rhClass = ClassINET,
                             rhTTL = 300, rhLength = 4\<rparr>,
                 rBody = AResource [127, 0, 0, 1]\<rparr>]"
    by (simp add: responseHeader_init_def)
next
  assume a: "Name_pack (qName q) = None \<and> in_zone s q \<and> qType q = TypeAAAA"
  then have "Name_pack (qName (q\<lparr>qClass := c\<rparr>)) = None" "in_zone s (q\<lparr>qClass := c\<rparr>)"
    "qType (q\<lparr>qClass := c\<rparr>) = TypeAAAA" by (simp_all add: in_zone_qClass)
  from buildResponse_AAAA[OF this, of qh]
  show "\<exists>m. buildResponse s qh (q\<lparr>qClass := c\<rparr>) = Inr m
           \<and> RCode (mHeader m) = RCodeSuccess
           \<and> Answers m =
               [\<lparr>rHeader = \<lparr>rhName = qName q, rhType = TypeAAAA, rhClass = ClassINET,
                             rhTTL = 300, rhLength = 16\<rparr>,
                 rBody = AAAAResource [0, 0, 0, 0, 0, 0, 0, 0, 0, 0, 0, 0, 0, 0, 0, 1]\<rparr>]"
    by (simp add: responseHeader_init_def)
qed

text \<open>C10 at an A question and an AAAA question of class CHAOS.\<close>

theorem C10_class_not_examined_witness:
  "Name_pack (qName \<lparr>qName = ''test.zone.'', qType = TypeA, qClass = ClassINET\<rparr>) = None
   \<and> in_zone (NewServer ''test.zone.'') \<lparr>qName = ''test.zone.'', qType = TypeA, qClass = ClassINET\<rparr>
   \<and> (\<exists>m. buildResponse (NewServer ''test.zone.'')
             \<lparr>ID = 1, Response = False, OpCode = 0, Authoritative = False, Truncated = False,
              RecursionDesired = True, RecursionAvailable = False, RCode = 0\<rparr>
             \<lparr>qName = ''test.zone.'', qType = TypeA, qClass = ClassCHAOS\<rparr> = Inr m
          \<and> RCode (mHeader m) = RCodeSuccess
          \<and> Answers m =
               [\<lparr>rHeader = \<lparr>rhName = ''test.zone.'', rhType = TypeA, rhClass = ClassINET,
                             rhTTL = 300, rhLength = 4\<rparr>,
                 rBody = AResource [127, 0, 0, 1]\<rparr>])
   \<and> Name_pack (qName \<lparr>qName = ''test.zone.'', qType = TypeAAAA, qClass = ClassINET\<rparr>) = None
   \<and> in_zone (NewServer ''test.zone.'')
        \<lparr>qName = ''test.zone.'', qType = TypeAAAA, qClass = ClassINET\<rparr>
   \<and> (\<exists>m. buildResponse (NewServer ''test.zone.'')
             \<lparr>ID = 1, Response = False, OpCode = 0, Authoritative = False, Truncated = False,
              RecursionDesired = True, RecursionAvailable = False, RCode = 0\<rparr>
             \<lparr>qName = ''test.zone.'', qType = TypeAAAA, qClass = ClassCHAOS\<rparr> = Inr m
          \<and> RCode (mHeader m) = RCodeSuccess
          \<and> Answers m =
               [\<lparr>rHeader = \<lparr>rhName = ''test.zone.'', rhType = TypeAAAA, rhClass = ClassINET,
                             rhTTL = 300, rhLength = 16\<rparr>,
                 rBody = AAAAResource [0, 0, 0, 0, 0, 0, 0, 0, 0, 0, 0, 0, 0, 0, 0, 1]\<rparr>])"
proof -
  let ?s = "NewServer ''test.zone.''"
  let ?qh = "\<lparr>ID = 1, Response = False, OpCode = 0, Authoritative = False, Truncated = False,
              RecursionDesired = True, RecursionAvailable = False, RCode = 0\<rparr>"
  let ?qA = "\<lparr>qName = ''test.zone.'', qType = TypeA, qClass = ClassINET\<rparr>"
  let ?qAAAA = "\<lparr>qName = ''test.zone.'', qType = TypeAAAA, qClass = ClassINET\<rparr>"
  have p: "Name_pack (qName ?qA) = None" "Name_pack (qName ?qAAAA) = None"
    by (simp_all add: Name_pack_test_zone)
  have z: "in_zone ?s ?qA" "in_zone ?s ?qAAAA"
    by (rule in_zone_test_zone)+
  show ?thesis
    using C10_class_not_examined [where s = ?s and q = ?qA and c = ClassCHAOS and qh = ?qh]
      C10_class_not_examined [where s = ?s and q = ?qAAAA and c = ClassCHAOS and qh = ?qh]
      p z
    by simp
qed

section \<open>Properties of the receive loop\<close>

lemma is_closed_read_simps:
  "is_closed_read (Datagram query srcAddr) = False"
  "is_closed_read (ReadError err) = errors_Is_ErrClosed err"
  by (simp_all add: is_closed_read_def)

text \<open>
  The loop returns \<open>nil\<close> when one of its reads fails with the closed condition, and is
  still reading otherwise.
\<close>

lemma handleRequests_result:
  "fst (handleRequests s st reads) = (if list_ex is_closed_read reads then Some None else None)"
proof (induction reads arbitrary: st)
  case Nil
  show ?case by simp
next
  case (Cons r reads)
  show ?case
  proof (cases r)
    case (ReadError err)
    with Cons show ?thesis by (simp add: is_closed_read_simps)
  next
    case (Datagram query srcAddr)
    obtain e c where h: "handleQuery s (conn st) srcAddr (take 512 query) = (e, c)"
      by (cases "handleQuery s (conn st) srcAddr (take 512 query)")
    show ?thesis
    proof (cases e)
      case None
      with h Datagram Cons[of "st\<lparr>conn := c\<rparr>"] show ?thesis
        by (simp add: is_closed_read_simps)
    next
      case (Some err)
      with h Datagram
        Cons[of "st\<lparr>conn := c, errlog := errlog st @ [(''Failed to handle DNS query'', err)]\<rparr>"]
      show ?thesis by (simp add: is_closed_read_simps)
    qed
  qed
qed

text \<open>
  C7: the receive loop terminates with success exactly when a read of the socket fails
  with the closed condition: \<open>handleRequests\<close> returns \<open>nil\<close> if and only if one of its
  reads fails with \<open>net.ErrClosed\<close> (or an error wrapping it), and it never returns an
  error. On every other read error the loop logs the error and continues with the next
  read.
\<close>

theorem C7_receive_loop:
  "(fst (handleRequests s st reads) = Some None) = list_ex is_closed_read reads
   \<and> (\<forall>e. fst (handleRequests s st reads) \<noteq> Some (Some e))
   \<and> (\<forall>err. \<not> errors_Is_ErrClosed err \<longrightarrow>
         handleRequests s st (ReadError err # reads) =
         handleRequests s
           (st\<lparr>errlog := errlog st @ [(''Failed to read from UDP connection'', err)]\<rparr>) reads)
   \<and> (\<forall>err. errors_Is_ErrClosed err \<longrightarrow>
         handleRequests s st (ReadError err # reads) = (Some None, st))"
  by (simp add: handleRequests_result)

text \<open>
  C7 at a read that times out followed by a read on the closed socket, and at the
  time-out alone.
\<close>

theorem C7_receive_loop_witness:
  "\<not> errors_Is_ErrClosed (netError ''i/o timeout'')
   \<and> errors_Is_ErrClosed (Errorf ''read udp'' ErrClosed)
   \<and> list_ex is_closed_read
        [ReadError (netError ''i/o timeout''), ReadError (Errorf ''read udp'' ErrClosed)]
   \<and> handleRequests (NewServer ''test.zone.'')
        \<lparr>conn = \<lparr>closed = False, sent = []\<rparr>, errlog = []\<rparr>
        [ReadError (netError ''i/o timeout''), ReadError (Errorf ''read udp'' ErrClosed)] =
       (Some None,
        \<lparr>conn = \<lparr>closed = False, sent = []\<rparr>,
         errlog = [(''Failed to read from UDP connection'', netError ''i/o timeout'')]\<rparr>)
   \<and> \<not> list_ex is_closed_read [ReadError (netError ''i/o timeout'')]
   \<and> fst (handleRequests (NewServer ''test.zone.'')
        \<lparr>conn = \<lparr>closed = False, sent = []\<rparr>, errlog = []\<rparr>
        [ReadError (netError ''i/o timeout'')]) = None"
proof -
  let ?s = "NewServer ''test.zone.''"
  let ?st = "\<lparr>conn = \<lparr>closed = False, sent = []\<rparr>, errlog = []\<rparr>"
  let ?st' = "\<lparr>conn = \<lparr>closed = False, sent = []\<rparr>,
         errlog = [(''Failed to read from UDP connection'', netError ''i/o timeout'')]\<rparr>"
  let ?t = "netError ''i/o timeout''"
  let ?c = "Errorf ''read udp'' ErrClosed"
  have e: "\<not> errors_Is_ErrClosed ?t" "errors_Is_ErrClosed ?c" by simp_all
  have "handleRequests ?s ?st [ReadError ?t, ReadError ?c] =
        handleRequests ?s (?st\<lparr>errlog := errlog ?st @ [(''Failed to read from UDP connection'', ?t)]\<rparr>)
          [ReadError ?c]"
    using C7_receive_loop [of ?s ?st "[ReadError ?c]"] e(1) by blast
  moreover have "handleRequests ?s ?st' [ReadError ?c] = (Some None, ?st')"
    using C7_receive_loop [of ?s ?st' "[]"] e(2) by blast
  ultimately have a: "handleRequests ?s ?st [ReadError ?t, ReadError ?c] = (Some None, ?st')"
    by simp
  have l: "list_ex is_closed_read [ReadError ?t, ReadError ?c]"
    "\<not> list_ex is_closed_read [ReadError ?t]"
    by (simp_all add: is_closed_read_simps)
  have "fst (handleRequests ?s ?st [ReadError ?t]) \<noteq> Some None"
    using C7_receive_loop [of ?s ?st "[ReadError ?t]"] l(2) by blast
  moreover have "\<forall>e. fst (handleRequests ?s ?st [ReadError ?t]) \<noteq> Some (Some e)"
    using C7_receive_loop [of ?s ?st "[ReadError ?t]"] by blast
  ultimately have b: "fst (handleRequests ?s ?st [ReadError ?t]) = None"
    by (cases "fst (handleRequests ?s ?st [ReadError ?t])") auto
  from e a l b show ?thesis by simp
qed

section \<open>Normalisation and letter case in zone matching\<close>

text \<open>\<open>isDomainInZone\<close> accepts exactly when the labels it compares are equal.\<close>

lemma isDomainInZone_compared:
  "isDomainInZone name z = (fst (compared_labels name z) = snd (compared_labels name z))"
proof -
  let ?np = "Split (fqdn name) (CHR ''.'')"
  let ?zp = "Split z (CHR ''.'')"
  let ?k = "min (length ?np) (length ?zp)"
  have "isDomainInZone name z = (take ?k (rev ?np) = take ?k (rev ?zp))"
    unfolding isDomainInZone_def fqdn_def Let_def by (rule isDomainInZone_loop_rev)
  also have "\<dots> = (rev (drop (length ?np - ?k) ?np) = rev (drop (length ?zp - ?k) ?zp))"
    by (simp only: take_rev)
  also have "\<dots> = (drop (length ?np - ?k) ?np = drop (length ?zp - ?k) ?zp)"
    by simp
  finally show ?thesis by (simp add: compared_labels_def Let_def)
qed

text \<open>
  C8, as the code has it: zone matching normalises the query name before comparing, and
  only the name. For every name that lacks the trailing root separator and every zone,
  \<open>isDomainInZone(name, zone)\<close> equals \<open>isDomainInZone(name ++ ".", zone)\<close>; and for
  every zone that ends with the separator (the command line refuses any other), the
  result is the same as if the separator had been appended to both where missing.
\<close>

theorem C8_name_normalised:
  "(\<not> HasSuffix name ''.'' \<longrightarrow> isDomainInZone name z = isDomainInZone (name @ ''.'') z)
   \<and> isDomainInZone name z = isDomainInZone (fqdn name) z
   \<and> (HasSuffix z ''.'' \<longrightarrow> isDomainInZone name z = isDomainInZone (fqdn name) (fqdn z))"
proof (intro conjI impI)
  assume "\<not> HasSuffix name ''.''"
  then have "fqdn name = name @ ''.''" by (simp add: fqdn_def)
  then show "isDomainInZone name z = isDomainInZone (name @ ''.'') z"
    using isDomainInZone_fqdn[of name z] by simp
next
  show "isDomainInZone name z = isDomainInZone (fqdn name) z" by (rule isDomainInZone_fqdn)
next
  assume "HasSuffix z ''.''"
  then have "fqdn z = z" by (rule fqdn_idem)
  then show "isDomainInZone name z = isDomainInZone (fqdn name) (fqdn z)"
    using isDomainInZone_fqdn[of name z] by simp
qed

text \<open>
  C8 as stated also normalises the zone: \<open>isDomainInZone(name, zone)\<close> would equal
  \<open>isDomainInZone(name ++ ".", zone ++ ".")\<close> when both lack the separator. The zone is
  compared as it is given: with the name and the zone both \<open>test.zone\<close>, the first is
  \<open>false\<close> and the second is \<open>true\<close>.
\<close>

theorem C8_zone_not_normalised:
  "\<not> HasSuffix ''test.zone'' ''.''
   \<and> isDomainInZone ''test.zone'' ''test.zone'' \<noteq>
       isDomainInZone (''test.zone'' @ ''.'') (''test.zone'' @ ''.'')"
  by code_simp

text \<open>C8 at the name \<open>sub.test.zone\<close> and the zone \<open>test.zone.\<close>.\<close>

theorem C8_name_normalised_witness:
  "\<not> HasSuffix ''sub.test.zone'' ''.'' \<and> HasSuffix ''test.zone.'' ''.''
   \<and> isDomainInZone ''sub.test.zone'' ''test.zone.''
   \<and> isDomainInZone (''sub.test.zone'' @ ''.'') ''test.zone.''
   \<and> isDomainInZone (fqdn ''sub.test.zone'') (fqdn ''test.zone.'')"
proof -
  have h: "\<not> HasSuffix ''sub.test.zone'' ''.''" "HasSuffix ''test.zone.'' ''.''"
    by (simp_all add: HasSuffix_def)
  have i: "isDomainInZone (''sub.test.zone'' @ ''.'') ''test.zone.''" by code_simp
  from C8_name_normalised [of "''sub.test.zone''" "''test.zone.''"] h i show ?thesis by blast
qed

text \<open>
  C9, as the code has it: zone matching compares labels by exact byte equality and is
  case-sensitive on the labels it compares. For every configured zone and every query
  name whose compared labels (the rightmost labels of the name, as many as the shorter
  of name and zone has) equal those of the zone up to letter case but not byte for byte,
  as \<open>TEST.ZONE.\<close> against the zone \<open>test.zone.\<close>, the name is out of zone and the
  query is answered with \<open>RCode = NameError\<close> and no answer.
\<close>

theorem C9_case_sensitive:
  assumes "zone s \<noteq> []" and "Name_pack (qName q) = None"
    and "compared_labels (qName q) (zone s) = (ns, zs)"
    and "ns \<noteq> zs" and "map (map toLower) ns = map (map toLower) zs"
  shows "\<not> isDomainInZone (qName q) (zone s)
     \<and> (\<exists>m. buildResponse s qh q = Inr m \<and> RCode (mHeader m) = RCodeNameError
            \<and> Answers m = [])"
proof -
  from assms(3,4) have nz: "\<not> isDomainInZone (qName q) (zone s)"
    by (simp add: isDomainInZone_compared)
  with assms(1) have "\<not> in_zone s q" by (simp add: in_zone_def)
  from buildResponse_out_of_zone[OF assms(2) this, of qh] nz show ?thesis by simp
qed

lemma compared_labels_TEST_ZONE:
  "compared_labels ''TEST.ZONE.'' ''test.zone.'' = ([''TEST'', ''ZONE'', []], [''test'', ''zone'', []])"
  by (simp add: compared_labels_def fqdn_def HasSuffix_def)

text \<open>C9 at the name \<open>TEST.ZONE.\<close> and the zone \<open>test.zone.\<close>.\<close>

theorem C9_case_sensitive_witness:
  "zone (NewServer ''test.zone.'') \<noteq> []
   \<and> Name_pack (qName \<lparr>qName = ''TEST.ZONE.'', qType = TypeA, qClass = ClassINET\<rparr>) = None
   \<and> compared_labels (qName \<lparr>qName = ''TEST.ZONE.'', qType = TypeA, qClass = ClassINET\<rparr>)
        (zone (NewServer ''test.zone.'')) =
       ([''TEST'', ''ZONE'', []], [''test'', ''zone'', []])
   \<and> [''TEST'', ''ZONE'', []] \<noteq> [''test'', ''zone'', []]
   \<and> map (map toLower) [''TEST'', ''ZONE'', []] = map (map toLower) [''test'', ''zone'', []]
   \<and> \<not> isDomainInZone ''TEST.ZONE.'' ''test.zone.''
   \<and> (\<exists>m. buildResponse (NewServer ''test.zone.'')
             \<lparr>ID = 1, Response = False, OpCode = 0, Authoritative = False, Truncated = False,
              RecursionDesired = True, RecursionAvailable = False, RCode = 0\<rparr>
             \<lparr>qName = ''TEST.ZONE.'', qType = TypeA, qClass = ClassINET\<rparr> = Inr m
          \<and> RCode (mHeader m) = RCodeNameError \<and> Answers m = [])"
proof -
  let ?s = "NewServer ''test.zone.''"
  let ?q = "\<lparr>qName = ''TEST.ZONE.'', qType = TypeA, qClass = ClassINET\<rparr>"
  have a: "zone ?s \<noteq> []" by (simp add: NewServer_def)
  have b: "Name_pack (qName ?q) = None" by (simp add: Name_pack_def)
  have c: "compared_labels (qName ?q) (zone ?s) =
      ([''TEST'', ''ZONE'', []], [''test'', ''zone'', []])"
    by (simp add: NewServer_def compared_labels_TEST_ZONE)
  have d: "[''TEST'', ''ZONE'', []] \<noteq> [''test'', ''zone'', []]" by simp
  have e: "map (map toLower) [''TEST'', ''ZONE'', []] = map (map toLower) [''test'', ''zone'', []]"
    by (simp add: toLower_def char_of_def bit_Suc_0_iff)
  from C9_case_sensitive [OF a b c d e, where qh = "\<lparr>ID = 1, Response = False, OpCode = 0,
      Authoritative = False, Truncated = False, RecursionDesired = True,
      RecursionAvailable = False, RCode = 0\<rparr>"] a b c d e
  show ?thesis by (simp add: NewServer_def)
qed

lemma toLower_SUB: "map toLower ''SUB.test.zone.'' = map toLower ''sub.test.zone.''"
  by (simp add: toLower_def char_of_def bit_Suc_0_iff)

lemma Name_pack_SUB: "Name_pack ''SUB.test.zone.'' = None"
  by (simp add: Name_pack_def)

lemma isDomainInZone_SUB: "isDomainInZone ''SUB.test.zone.'' ''test.zone.''"
  using isDomainInZone_subdomain[of "''test.zone.''" "''SUB''"] by (simp add: HasSuffix_def)

lemma isDomainInZone_sub: "isDomainInZone ''sub.test.zone.'' ''test.zone.''"
  using isDomainInZone_subdomain[of "''test.zone.''" "''sub''"] by (simp add: HasSuffix_def)

text \<open>
  C9 as stated says that every query name that differs from an in-zone name only in
  letter case is out of zone. A difference in a label left of the compared ones does not
  count: \<open>SUB.test.zone.\<close> differs from the in-zone name \<open>sub.test.zone.\<close> only in
  letter case, is in the zone \<open>test.zone.\<close>, and is answered with \<open>RCode = Success\<close>.
\<close>

theorem C9_case_left_of_zone_ignored:
  "zone (NewServer ''test.zone.'') \<noteq> []
   \<and> isDomainInZone ''sub.test.zone.'' ''test.zone.''
   \<and> ''SUB.test.zone.'' \<noteq> ''sub.test.zone.''
   \<and> map toLower ''SUB.test.zone.'' = map toLower ''sub.test.zone.''
   \<and> isDomainInZone ''SUB.test.zone.'' ''test.zone.''
   \<and> buildResponse (NewServer ''test.zone.'')
         \<lparr>ID = 1, Response = False, OpCode = 0, Authoritative = False, Truncated = False,
          RecursionDesired = True, RecursionAvailable = False, RCode = 0\<rparr>
         \<lparr>qName = ''SUB.test.zone.'', qType = TypeA, qClass = ClassINET\<rparr> =
       Inr \<lparr>mHeader =
              \<lparr>ID = 1, Response = True, OpCode = 0, Authoritative = True, Truncated = False,
               RecursionDesired = True, RecursionAvailable = False, RCode = RCodeSuccess\<rparr>,
            Questions = [\<lparr>qName = ''SUB.test.zone.'', qType = TypeA, qClass = ClassINET\<rparr>],
            Answers = [\<lparr>rHeader = \<lparr>rhName = ''SUB.test.zone.'', rhType = TypeA,
                                   rhClass = ClassINET, rhTTL = 300, rhLength = 4\<rparr>,
                        rBody = AResource [127, 0, 0, 1]\<rparr>]\<rparr>"
proof -
  let ?s = "NewServer ''test.zone.''"
  let ?q = "\<lparr>qName = ''SUB.test.zone.'', qType = TypeA, qClass = ClassINET\<rparr>"
  have z: "in_zone ?s ?q" by (simp add: in_zone_def NewServer_def isDomainInZone_SUB)
  have p: "Name_pack (qName ?q) = None" by (simp add: Name_pack_SUB)
  have t: "qType ?q = TypeA" by simp
  have l: "map toLower ''SUB.test.zone.'' = map toLower ''sub.test.zone.''"
    by (rule toLower_SUB)
  have n: "''SUB.test.zone.'' \<noteq> ''sub.test.zone.''" by simp
  have r: "buildResponse ?s
         \<lparr>ID = 1, Response = False, OpCode = 0, Authoritative = False, Truncated = False,
          RecursionDesired = True, RecursionAvailable = False, RCode = 0\<rparr> ?q =
       Inr \<lparr>mHeader =
              \<lparr>ID = 1, Response = True, OpCode = 0, Authoritative = True, Truncated = False,
               RecursionDesired = True, RecursionAvailable = False, RCode = RCodeSuccess\<rparr>,
            Questions = [?q],
            Answers = [\<lparr>rHeader = \<lparr>rhName = ''SUB.test.zone.'', rhType = TypeA,
                                   rhClass = ClassINET, rhTTL = 300, rhLength = 4\<rparr>,
                        rBody = AResource [127, 0, 0, 1]\<rparr>]\<rparr>"
    using buildResponse_A[OF p z t] by (simp add: responseHeader_init_def)
  have a: "zone ?s \<noteq> []" by (simp add: NewServer_def)
  show ?thesis
    by (intro conjI a isDomainInZone_sub n l isDomainInZone_SUB r)
qed

end
